theory Spec2Isabelle
  imports Complex_Main "HOL-Library.Char_ord" "HOL-Library.List_Lexorder"
    "HOL-Library.Multiset"
begin

section \<open>Numbers, JavaScript values and strings\<close>

text \<open>
  A JavaScript \<^verbatim>\<open>number\<close> that holds a finite value is modelled as a rational, the
  exact value of the double. The counts of the report and their sums are integers,
  for which the addition of doubles is exact, and are read exactly. The difference,
  the division and the products of \<^verbatim>\<open>withDelta\<close> and \<^verbatim>\<open>normalizeScore\<close> are the operations
  of IEEE 754 binary64 below, which round. Where the source inspects a value of
  type \<^verbatim>\<open>unknown\<close>, the other things a JavaScript value can be are constructors of
  their own. Strings are lists of bytes; the strings the report handles (dates, month
  keys, rule names, URLs) are ASCII. A thrown \<^verbatim>\<open>Error\<close> is the left summand of a
  sum type and carries what \<^verbatim>\<open>String(error)\<close> gives.
\<close>

type_synonym number = rat

datatype js_value =
    JNumber number    \<comment> \<open>\<^verbatim>\<open>typeof v === "number"\<close>, finite\<close>
  | JNaN              \<comment> \<open>\<^verbatim>\<open>typeof NaN === "number"\<close>; every comparison with it is false\<close>
  | JPosInfinity
  | JNegInfinity
  | JNotNumber        \<comment> \<open>undefined, null, a string, an object, ...\<close>

text \<open>\<^verbatim>\<open>Math.round(x)\<close>: the integer closest to \<open>x\<close>, ties towards \<open>+\<infinity>\<close>.\<close>

definition Math_round :: "number \<Rightarrow> int" where
  "Math_round x = \<lfloor>x + 1 / 2\<rfloor>"

subsection \<open>The arithmetic of doubles\<close>

text \<open>
  A double is a finite value \<open>m * 2^e\<close> with \<open>\<bar>m\<bar> < 2^53\<close> and \<open>- 1074 \<le> e \<le> 971\<close>, an
  infinity or NaN. The sign of zero is not modelled: no code of the report tells
  \<^verbatim>\<open>-0\<close> from \<^verbatim>\<open>0\<close>.
\<close>

datatype double = Finite number | PosInfinity | NegInfinity | NaN

text \<open>The integer closest to \<open>x\<close>, a tie going to the even one.\<close>

definition roundHalfEven :: "rat \<Rightarrow> int" where
  "roundHalfEven x =
     (let n = \<lfloor>x\<rfloor> in
      if x - of_int n < 1 / 2 then n
      else if 1 / 2 < x - of_int n then n + 1
      else if even n then n else n + 1)"

text \<open>The number of binary digits of a positive integer.\<close>

function bitLength :: "int \<Rightarrow> nat" where
  "bitLength n = (if n \<le> 0 then 0 else Suc (bitLength (n div 2)))"
  by pat_completeness auto
termination
  by (relation "measure nat") auto

declare bitLength.simps [simp del]

text \<open>
  The binary exponent of \<open>x \<noteq> 0\<close>, the \<open>k\<close> with \<open>2^k \<le> \<bar>x\<bar> < 2^(k + 1)\<close>: the digits of
  numerator and denominator leave two candidates.
\<close>

definition ilog2 :: "rat \<Rightarrow> int" where
  "ilog2 x =
     (case quotient_of \<bar>x\<bar> of
        (n, d) \<Rightarrow>
          (let k = int (bitLength n) - int (bitLength d) in
           if 2 powi k \<le> \<bar>x\<bar> then k else k - 1))"

text \<open>
  Rounding to nearest, ties to even, with 53 significant binary digits, and with the
  fixed unit \<open>2^(- 1074)\<close> for the subnormal values; the exponent is not bounded above
  here.
\<close>

definition roundDouble :: "rat \<Rightarrow> rat" where
  "roundDouble x =
     (if x = 0 then 0
      else (let e = max (ilog2 x - 52) (- 1074) in
            of_int (roundHalfEven (x / 2 powi e)) * 2 powi e))"

definition signedInfinity :: "bool \<Rightarrow> double" where
  "signedInfinity negative = (if negative then NegInfinity else PosInfinity)"

text \<open>
  The double that an operation with the exact result \<open>x\<close> returns: the rounded value,
  or an infinity when that is \<open>2^1024\<close> or more in magnitude.
\<close>

definition fromReal :: "rat \<Rightarrow> double" where
  "fromReal x =
     (let y = roundDouble x in
      if y \<noteq> 0 \<and> 1024 \<le> ilog2 y then signedInfinity (y < 0) else Finite y)"

definition isNegative :: "double \<Rightarrow> bool" where
  "isNegative x = (case x of Finite a \<Rightarrow> a < 0 | NegInfinity \<Rightarrow> True | _ \<Rightarrow> False)"

text \<open>\<^verbatim>\<open>x - y\<close>, \<^verbatim>\<open>x * y\<close> and \<^verbatim>\<open>x / y\<close> on doubles.\<close>

fun fsub :: "double \<Rightarrow> double \<Rightarrow> double" where
  "fsub NaN y = NaN"
| "fsub x NaN = NaN"
| "fsub (Finite a) (Finite b) = fromReal (a - b)"
| "fsub (Finite a) PosInfinity = NegInfinity"
| "fsub (Finite a) NegInfinity = PosInfinity"
| "fsub PosInfinity PosInfinity = NaN"
| "fsub NegInfinity NegInfinity = NaN"
| "fsub PosInfinity y = PosInfinity"
| "fsub NegInfinity y = NegInfinity"

fun fmul :: "double \<Rightarrow> double \<Rightarrow> double" where
  "fmul NaN y = NaN"
| "fmul x NaN = NaN"
| "fmul (Finite a) (Finite b) = fromReal (a * b)"
| "fmul x y =
     (if x = Finite 0 \<or> y = Finite 0 then NaN else signedInfinity (isNegative x \<noteq> isNegative y))"

text \<open>
  A division by zero gives NaN or an infinity, whose sign the model takes from the
  dividend alone; the code modelled divides by values it has compared with 0.
\<close>

fun fdiv :: "double \<Rightarrow> double \<Rightarrow> double" where
  "fdiv NaN y = NaN"
| "fdiv x NaN = NaN"
| "fdiv (Finite a) (Finite b) =
     (if b = 0 then (if a = 0 then NaN else signedInfinity (a < 0)) else fromReal (a / b))"
| "fdiv (Finite a) y = Finite 0"
| "fdiv x (Finite b) = signedInfinity (isNegative x \<noteq> (b < 0))"
| "fdiv x y = NaN"

subsection \<open>Decimal digits\<close>

definition digitChar :: "int \<Rightarrow> char" where
  "digitChar d = ''0123456789'' ! nat (d mod 10)"

text \<open>The regular expression class \<^verbatim>\<open>\d\<close> of JavaScript: the ten ASCII digits.\<close>

definition isDigit :: "char \<Rightarrow> bool" where
  "isDigit c = (c \<in> set ''0123456789'')"

definition digitValue :: "char \<Rightarrow> int" where
  "digitValue c =
     (case map_of (zip ''0123456789'' [0, 1, 2, 3, 4, 5, 6, 7, 8, 9]) c of
        Some v \<Rightarrow> v
      | None \<Rightarrow> 0)"

text \<open>\<^verbatim>\<open>Number(s)\<close> on a string of decimal digits, the only strings it is applied to.\<close>

definition Number :: "string \<Rightarrow> int" where
  "Number s = foldl (\<lambda>a c. 10 * a + digitValue c) 0 s"

text \<open>The \<open>k\<close> low decimal digits of \<open>n\<close>, zero-padded: the fields of an ISO date.\<close>

primrec padDigits :: "nat \<Rightarrow> int \<Rightarrow> string" where
  "padDigits 0 n = []"
| "padDigits (Suc k) n = padDigits k (n div 10) @ [digitChar (n mod 10)]"

text \<open>\<^verbatim>\<open>String(n)\<close> and \<^verbatim>\<open>${n}\<close> for a natural number.\<close>

fun decimal :: "nat \<Rightarrow> string" where
  "decimal n =
     (if n < 10 then [digitChar (int n)]
      else decimal (n div 10) @ [digitChar (int (n mod 10))])"

declare decimal.simps [simp del]

section \<open>Dates\<close>

text \<open>
  Every \<^verbatim>\<open>Date\<close> of \<^verbatim>\<open>period.ts\<close> is at midnight UTC, so a date is its day number: the
  time value divided by the milliseconds of a day, with day 0 the first of January
  1970. The functions below are those of the ECMAScript specification, which defines
  the methods of \<^verbatim>\<open>Date\<close> through them (\<^verbatim>\<open>DayFromYear\<close>, \<^verbatim>\<open>YearFromTime\<close>,
  \<^verbatim>\<open>MonthFromTime\<close>, \<^verbatim>\<open>DateFromTime\<close>, \<^verbatim>\<open>MakeDay\<close>), on days instead of milliseconds.
  Months are numbered from 0. The limit of the time value (about 275760 years either
  side of 1970) is not modelled.
\<close>

type_synonym Date = int

definition DaysInYear :: "int \<Rightarrow> int" where
  "DaysInYear y =
     (if y mod 4 \<noteq> 0 then 365 else if y mod 100 \<noteq> 0 then 366
      else if y mod 400 \<noteq> 0 then 365 else 366)"

definition DayFromYear :: "int \<Rightarrow> int" where
  "DayFromYear y =
     365 * (y - 1970) + (y - 1969) div 4 - (y - 1901) div 100 + (y - 1601) div 400"

lemma div_step:
  fixes a k :: int
  assumes "0 < k"
  shows "(a + 1) div k = a div k + (if (a + 1) mod k = 0 then 1 else 0)"
proof -
  let ?q = "a div k" and ?r = "a mod k"
  have r: "0 \<le> ?r" "?r < k" using assms by simp_all
  have a: "k * ?q + ?r = a" by simp
  show ?thesis
  proof (cases "?r + 1 = k")
    case True
    have "k * (?q + 1) = k * ?q + k" by (simp add: algebra_simps)
    with a True have "a + 1 = k * (?q + 1) + 0" by linarith
    then have "(a + 1) div k = ?q + 1" "(a + 1) mod k = 0"
      using assms by (metis int_div_pos_eq order_refl, metis int_mod_pos_eq order_refl)
    then show ?thesis by simp
  next
    case False
    then have lt: "?r + 1 < k" using r by simp
    have "a + 1 = k * ?q + (?r + 1)" using a by linarith
    then have "(a + 1) div k = ?q" "(a + 1) mod k = ?r + 1"
      using lt r
      by (metis int_div_pos_eq add_nonneg_nonneg zero_le_one,
          metis int_mod_pos_eq add_nonneg_nonneg zero_le_one)
    then show ?thesis using r by simp
  qed
qed

lemma mod_shift: "(y - n * k) mod k = y mod (k::int)"
  using mod_mult_self1 [of y "- n" k] by simp

lemma DayFromYear_step: "DayFromYear (y + 1) = DayFromYear y + DaysInYear y"
proof -
  have s4: "(y - 1968) div 4 = (y - 1969) div 4 + (if y mod 4 = 0 then 1 else 0)"
    using div_step [of 4 "y - 1969"] mod_shift [of y 492 4] by simp
  have s100: "(y - 1900) div 100 = (y - 1901) div 100 + (if y mod 100 = 0 then 1 else 0)"
    using div_step [of 100 "y - 1901"] mod_shift [of y 19 100] by simp
  have s400: "(y - 1600) div 400 = (y - 1601) div 400 + (if y mod 400 = 0 then 1 else 0)"
    using div_step [of 400 "y - 1601"] mod_shift [of y 4 400] by simp
  have m1: "y mod 4 = y mod 100 mod 4" by (simp add: mod_mod_cancel)
  have m2: "y mod 100 = y mod 400 mod 100" by (simp add: mod_mod_cancel)
  have d1: "y mod 100 = 0 \<Longrightarrow> y mod 4 = 0" using m1 by simp
  have d2: "y mod 400 = 0 \<Longrightarrow> y mod 100 = 0" using m2 by simp
  have e: "DayFromYear (y + 1) =
      365 * (y - 1969) + (y - 1968) div 4 - (y - 1900) div 100 + (y - 1600) div 400"
    by (simp add: DayFromYear_def)
  show ?thesis
    unfolding e s4 s100 s400 using d1 d2
    by (auto simp add: DayFromYear_def DaysInYear_def)
qed

lemma DaysInYear_ge: "365 \<le> DaysInYear y"
  by (simp add: DaysInYear_def)

lemma DayFromYear_less: "DayFromYear y < DayFromYear (y + 1)"
  using DayFromYear_step [of y] DaysInYear_ge [of y] by linarith

text \<open>
  \<^verbatim>\<open>YearFromTime(t)\<close> is the largest year whose first day is not after \<open>t\<close>. It is found
  from an estimate, stepping down while the year starts after \<open>t\<close> and then up while
  the next year starts no later than \<open>t\<close>.
\<close>

function yearDown :: "int \<Rightarrow> Date \<Rightarrow> int" where
  "yearDown y t = (if t < DayFromYear y then yearDown (y - 1) t else y)"
  by pat_completeness auto
termination
proof (relation "measure (\<lambda>(y, t). nat (DayFromYear y - t))")
  show "wf (measure (\<lambda>(y, t). nat (DayFromYear y - t)))" by simp
next
  fix y t :: int
  assume "t < DayFromYear y"
  then show "((y - 1, t), (y, t)) \<in> measure (\<lambda>(y, t). nat (DayFromYear y - t))"
    using DayFromYear_less [of "y - 1"] by simp
qed

declare yearDown.simps [simp del]

function yearUp :: "int \<Rightarrow> Date \<Rightarrow> int" where
  "yearUp y t = (if DayFromYear (y + 1) \<le> t then yearUp (y + 1) t else y)"
  by pat_completeness auto
termination
proof (relation "measure (\<lambda>(y, t). nat (t - DayFromYear y))")
  show "wf (measure (\<lambda>(y, t). nat (t - DayFromYear y)))" by simp
next
  fix y t :: int
  assume "DayFromYear (y + 1) \<le> t"
  then show "((y + 1, t), (y, t)) \<in> measure (\<lambda>(y, t). nat (t - DayFromYear y))"
    using DayFromYear_less [of y] by simp
qed

declare yearUp.simps [simp del]

definition YearFromTime :: "Date \<Rightarrow> int" where
  "YearFromTime t = yearUp (yearDown (1970 + t div 365) t) t"

definition InLeapYear :: "int \<Rightarrow> int" where
  "InLeapYear y = (if DaysInYear y = 366 then 1 else 0)"

text \<open>The day within the year on which month \<open>m\<close> starts; \<open>l\<close> is 1 in a leap year.\<close>

definition monthStart :: "int \<Rightarrow> int \<Rightarrow> int" where
  "monthStart l m =
     (if m = 0 then 0 else if m = 1 then 31 else if m = 2 then 59 + l
      else if m = 3 then 90 + l else if m = 4 then 120 + l else if m = 5 then 151 + l
      else if m = 6 then 181 + l else if m = 7 then 212 + l else if m = 8 then 243 + l
      else if m = 9 then 273 + l else if m = 10 then 304 + l else 334 + l)"

definition DaysInMonth :: "int \<Rightarrow> int \<Rightarrow> int" where
  "DaysInMonth y m =
     (if m = 11 then 31 else monthStart (InLeapYear y) (m + 1) - monthStart (InLeapYear y) m)"

definition DayWithinYear :: "Date \<Rightarrow> int" where
  "DayWithinYear t = t - DayFromYear (YearFromTime t)"

definition MonthFromTime :: "Date \<Rightarrow> int" where
  "MonthFromTime t =
     (let d = DayWithinYear t; l = InLeapYear (YearFromTime t) in
      if d < 31 then 0 else if d < 59 + l then 1 else if d < 90 + l then 2
      else if d < 120 + l then 3 else if d < 151 + l then 4 else if d < 181 + l then 5
      else if d < 212 + l then 6 else if d < 243 + l then 7 else if d < 273 + l then 8
      else if d < 304 + l then 9 else if d < 334 + l then 10 else 11)"

definition DateFromTime :: "Date \<Rightarrow> int" where
  "DateFromTime t =
     DayWithinYear t - monthStart (InLeapYear (YearFromTime t)) (MonthFromTime t) + 1"

text \<open>
  \<^verbatim>\<open>MakeDay(year, month, date)\<close>: months outside 0..11 carry into the year, days outside
  the month carry into the neighbouring months.
\<close>

definition MakeDay :: "int \<Rightarrow> int \<Rightarrow> int \<Rightarrow> Date" where
  "MakeDay year month dt =
     (let ym = year + month div 12; mn = month mod 12 in
      DayFromYear ym + monthStart (InLeapYear ym) mn + dt - 1)"

text \<open>
  \<^verbatim>\<open>Date.UTC(year, month, date)\<close>. The specification of \<^verbatim>\<open>Date.UTC\<close> reads a year from
  0 to 99 as 1900 + year before anything else is computed.
\<close>

definition DateUTC :: "int \<Rightarrow> int \<Rightarrow> int \<Rightarrow> Date" where
  "DateUTC year month dt =
     MakeDay (if 0 \<le> year \<and> year \<le> 99 then 1900 + year else year) month dt"

text \<open>\<^verbatim>\<open>d.setUTCDate(dt)\<close> gives \<^verbatim>\<open>MakeDay(YearFromTime(d), MonthFromTime(d), dt)\<close>.\<close>

definition setUTCDate :: "Date \<Rightarrow> int \<Rightarrow> Date" where
  "setUTCDate t dt = MakeDay (YearFromTime t) (MonthFromTime t) dt"

lemma MonthFromTime_range: "0 \<le> MonthFromTime t \<and> MonthFromTime t < 12"
  by (simp add: MonthFromTime_def Let_def)

lemma setUTCDate_relative [simp]: "setUTCDate t (DateFromTime t + k) = t + k"
proof -
  have "MonthFromTime t div 12 = 0" "MonthFromTime t mod 12 = MonthFromTime t"
    using MonthFromTime_range [of t] by simp_all
  then show ?thesis
    by (simp add: setUTCDate_def MakeDay_def DateFromTime_def DayWithinYear_def)
qed

text \<open>
  \<^verbatim>\<open>d.toISOString()\<close> of a date at midnight UTC: a year from 0 to 9999 is written with
  four digits, any other year with a sign and six digits.
\<close>

definition toISOString :: "Date \<Rightarrow> string" where
  "toISOString t =
     (let y = YearFromTime t in
      (if 0 \<le> y \<and> y \<le> 9999 then padDigits 4 y
       else (if y < 0 then ''-'' else ''+'') @ padDigits 6 \<bar>y\<bar>)
      @ ''-'' @ padDigits 2 (MonthFromTime t + 1)
      @ ''-'' @ padDigits 2 (DateFromTime t) @ ''T00:00:00.000Z'')"

text \<open>
  \<^verbatim>\<open>new Date(s)\<close> for a string of the form \<^verbatim>\<open>YYYY-MM-DDT00:00:00Z\<close> that names a day of
  the calendar: the form of the bounds that \<^verbatim>\<open>buildMonthPeriod\<close> produces for the
  years 0000 to 9999. \<open>None\<close> stands for the invalid date (whose comparisons are all
  false); what JavaScript engines make of other strings is not modelled, and they
  give \<open>None\<close> here as well.
\<close>

definition newDate :: "string \<Rightarrow> Date option" where
  "newDate s =
     (if length s = 20 \<and> list_all isDigit (take 4 s) \<and> s ! 4 = CHR ''-''
         \<and> list_all isDigit (take 2 (drop 5 s)) \<and> s ! 7 = CHR ''-''
         \<and> list_all isDigit (take 2 (drop 8 s)) \<and> drop 10 s = ''T00:00:00Z''
      then
        (let y = Number (take 4 s); m = Number (take 2 (drop 5 s));
             d = Number (take 2 (drop 8 s)) in
         if 1 \<le> m \<and> m \<le> 12 \<and> 1 \<le> d \<and> d \<le> DaysInMonth y (m - 1)
         then Some (MakeDay y (m - 1) d) else None)
      else None)"

section \<open>\<^verbatim>\<open>period.ts\<close>\<close>

text \<open>\<^verbatim>\<open>toIsoDate(date) = date.toISOString().slice(0, 10)\<close>\<close>

definition toIsoDate :: "Date \<Rightarrow> string" where
  "toIsoDate d = take 10 (toISOString d)"

text \<open>
  \<^verbatim>\<open>shiftMonth(date, offset) =
    new Date(Date.UTC(date.getUTCFullYear(), date.getUTCMonth() + offset, 1))\<close>
\<close>

definition shiftMonth :: "Date \<Rightarrow> int \<Rightarrow> Date" where
  "shiftMonth d offset = DateUTC (YearFromTime d) (MonthFromTime d + offset) 1"

text \<open>
  \<^verbatim>\<open>monthOverride.match(/^(\d{4})-(\d{2})$/)\<close>: the two groups when the whole string is
  four digits, a hyphen and two digits. Without the flag \<^verbatim>\<open>m\<close> the anchor \<^verbatim>\<open>$\<close> of
  JavaScript matches only at the end of the input.
\<close>

definition matchMonthKey :: "string \<Rightarrow> (string \<times> string) option" where
  "matchMonthKey s =
     (if length s = 7 \<and> list_all isDigit (take 4 s) \<and> s ! 4 = CHR ''-''
         \<and> list_all isDigit (drop 5 s)
      then Some (take 4 s, drop 5 s) else None)"

text \<open>
  \<^verbatim>\<open>
  function parseMonthOverride(monthOverride: string): Date {
    const match = monthOverride.match(MONTH_KEY_REGEX);
    if (!match) throw new Error("month must use YYYY-MM format");
    const year = Number(match[1]);
    const month = Number(match[2]);
    if (month < 1 || month > 12) throw new Error("month must be between 01 and 12");
    return new Date(Date.UTC(year, month - 1, 1));
  }
  \<close>
\<close>

definition parseMonthOverride :: "string \<Rightarrow> string + Date" where
  "parseMonthOverride monthOverride =
     (case matchMonthKey monthOverride of
        None \<Rightarrow> Inl ''month must use YYYY-MM format''
      | Some (g1, g2) \<Rightarrow>
          (let year = Number g1; month = Number g2 in
           if month < 1 \<or> month > 12 then Inl ''month must be between 01 and 12''
           else Inr (DateUTC year (month - 1) 1)))"

record MonthPeriod =
  monthKey :: string
  startDate :: string
  endDateExclusive :: string
  prevMonthKey :: string
  prevStartDate :: string
  prevEndDateExclusive :: string
  startDateTime :: string
  endDateTimeExclusive :: string
  prevStartDateTime :: string
  prevEndDateTimeExclusive :: string

text \<open>The body of \<^verbatim>\<open>buildMonthPeriod\<close> once \<^verbatim>\<open>targetMonthStart\<close> is known.\<close>

definition periodOf :: "Date \<Rightarrow> MonthPeriod" where
  "periodOf targetMonthStart =
     (let targetMonthEnd = shiftMonth targetMonthStart 1;
          previousMonthStart = shiftMonth targetMonthStart (- 1);
          previousMonthEnd = targetMonthStart in
      \<lparr> monthKey = take 7 (toIsoDate targetMonthStart),
        startDate = toIsoDate targetMonthStart,
        endDateExclusive = toIsoDate targetMonthEnd,
        prevMonthKey = take 7 (toIsoDate previousMonthStart),
        prevStartDate = toIsoDate previousMonthStart,
        prevEndDateExclusive = toIsoDate previousMonthEnd,
        startDateTime = toIsoDate targetMonthStart @ ''T00:00:00Z'',
        endDateTimeExclusive = toIsoDate targetMonthEnd @ ''T00:00:00Z'',
        prevStartDateTime = toIsoDate previousMonthStart @ ''T00:00:00Z'',
        prevEndDateTimeExclusive = toIsoDate previousMonthEnd @ ''T00:00:00Z'' \<rparr>)"

text \<open>
  \<^verbatim>\<open>
  const targetMonthStart = monthOverride
    ? parseMonthOverride(monthOverride)
    : shiftMonth(new Date(Date.UTC(now.getUTCFullYear(), now.getUTCMonth(), 1)), -1);
  \<close>
  The condition is the truthiness of \<^verbatim>\<open>monthOverride\<close>: an absent override and the
  empty string both take the second branch. \<open>now\<close> is the day of the clock.
\<close>

definition buildMonthPeriod :: "Date \<Rightarrow> string option \<Rightarrow> string + MonthPeriod" where
  "buildMonthPeriod now monthOverride =
     (case (case monthOverride of
              Some s \<Rightarrow>
                if s \<noteq> [] then parseMonthOverride s
                else Inr (shiftMonth (DateUTC (YearFromTime now) (MonthFromTime now) 1) (- 1))
            | None \<Rightarrow> Inr (shiftMonth (DateUTC (YearFromTime now) (MonthFromTime now) 1) (- 1)))
      of Inl e \<Rightarrow> Inl e
       | Inr targetMonthStart \<Rightarrow> Inr (periodOf targetMonthStart))"

text \<open>
  The interfaces of \<^verbatim>\<open>types.ts\<close>. Where two interfaces share a field name, the later
  record prefixes it (\<open>week_requests\<close> for \<^verbatim>\<open>WeeklyTrafficRow.requests\<close>).
\<close>

record DailyTrafficPoint =
  date :: string
  requests :: number
  uniques :: number
  bytes :: number

record WeeklyTrafficRow =
  label :: string
  week_requests :: number
  week_uniques :: number
  week_bytes :: number

text \<open>
  \<^verbatim>\<open>formatDay\<close>: \<^verbatim>\<open>Intl.DateTimeFormat("en-US", {month: "short", day: "numeric",
  timeZone: "UTC"})\<close>, as in \<^verbatim>\<open>Jan 5\<close>.
\<close>

definition monthShort :: "int \<Rightarrow> string" where
  "monthShort m =
     [''Jan'', ''Feb'', ''Mar'', ''Apr'', ''May'', ''Jun'',
      ''Jul'', ''Aug'', ''Sep'', ''Oct'', ''Nov'', ''Dec''] ! nat m"

definition formatDay :: "Date \<Rightarrow> string" where
  "formatDay d = monthShort (MonthFromTime d) @ '' '' @ decimal (nat (DateFromTime d))"

text \<open>
  The inner loop of \<^verbatim>\<open>buildWeeklyBreakdown\<close>, with the three running sums as a triple:
  \<^verbatim>\<open>
  const dayCursor = new Date(weekStart);
  while (dayCursor < weekEnd) {
    const key = toIsoDate(dayCursor);
    const point = byDate.get(key);
    if (point) { requests += point.requests; uniques += point.uniques; bytes += point.bytes; }
    dayCursor.setUTCDate(dayCursor.getUTCDate() + 1);
  }
  \<close>
\<close>

function sumDays ::
  "(string \<rightharpoonup> DailyTrafficPoint) \<Rightarrow> Date \<Rightarrow> Date \<Rightarrow> number \<times> number \<times> number
    \<Rightarrow> number \<times> number \<times> number" where
  "sumDays byDate dayCursor weekEnd (rq, un, by) =
     (if dayCursor < weekEnd then
        sumDays byDate (setUTCDate dayCursor (DateFromTime dayCursor + 1)) weekEnd
          (case byDate (toIsoDate dayCursor) of
             Some point \<Rightarrow> (rq + requests point, un + uniques point, by + bytes point)
           | None \<Rightarrow> (rq, un, by))
      else (rq, un, by))"
  by pat_completeness auto
termination
  by (relation "measure (\<lambda>(byDate, dayCursor, weekEnd, acc). nat (weekEnd - dayCursor))")
    simp_all

declare sumDays.simps [simp del]

text \<open>
  \<^verbatim>\<open>
  const weekEnd = new Date(cursor);
  weekEnd.setUTCDate(weekEnd.getUTCDate() + 7);
  if (weekEnd > monthEnd) weekEnd.setTime(monthEnd.getTime());
  \<close>
\<close>

definition weekEndOf :: "Date \<Rightarrow> Date \<Rightarrow> Date" where
  "weekEndOf cursor monthEnd =
     (let weekEnd = setUTCDate cursor (DateFromTime cursor + 7) in
      if weekEnd > monthEnd then monthEnd else weekEnd)"

text \<open>The row that one pass of the outer loop pushes.\<close>

definition weekRow ::
  "(string \<rightharpoonup> DailyTrafficPoint) \<Rightarrow> nat \<Rightarrow> Date \<Rightarrow> Date \<Rightarrow> WeeklyTrafficRow" where
  "weekRow byDate weekIndex weekStart weekEnd =
     (case sumDays byDate weekStart weekEnd (0, 0, 0) of
        (rq, un, by) \<Rightarrow>
          (let weekEndLabelDate = setUTCDate weekEnd (DateFromTime weekEnd - 1) in
           \<lparr> label = ''Week '' @ decimal weekIndex @ '' ('' @ formatDay weekStart @ '' - ''
                 @ formatDay weekEndLabelDate @ '')'',
             week_requests = rq, week_uniques = un, week_bytes = by \<rparr>))"

lemma weekEndOf_eq: "weekEndOf cursor monthEnd = min (cursor + 7) monthEnd"
  by (simp add: weekEndOf_def min_def)

text \<open>
  The outer loop, \<^verbatim>\<open>while (cursor < monthEnd) { ...; cursor = weekEnd; weekIndex += 1; }\<close>.
\<close>

function weeklyLoop ::
  "(string \<rightharpoonup> DailyTrafficPoint) \<Rightarrow> nat \<Rightarrow> Date \<Rightarrow> Date \<Rightarrow> WeeklyTrafficRow list" where
  "weeklyLoop byDate weekIndex cursor monthEnd =
     (if cursor < monthEnd then
        weekRow byDate weekIndex cursor (weekEndOf cursor monthEnd)
          # weeklyLoop byDate (weekIndex + 1) (weekEndOf cursor monthEnd) monthEnd
      else [])"
  by pat_completeness auto
termination
  by (relation "measure (\<lambda>(byDate, weekIndex, cursor, monthEnd). nat (monthEnd - cursor))")
    (simp_all add: weekEndOf_eq)

declare weeklyLoop.simps [simp del]

text \<open>
  \<^verbatim>\<open>byDate\<close>: the \<^verbatim>\<open>Map\<close> from date to point; a later point of the same date replaces
  the earlier one.
\<close>

definition byDateOf :: "DailyTrafficPoint list \<Rightarrow> (string \<rightharpoonup> DailyTrafficPoint)" where
  "byDateOf daily = foldl (\<lambda>m item. m(date item \<mapsto> item)) Map.empty daily"

text \<open>
  \<^verbatim>\<open>buildWeeklyBreakdown(daily, startDate, endDateExclusive)\<close>. When one of the two
  bounds is the invalid date, \<^verbatim>\<open>cursor < monthEnd\<close> is false and no row is produced.
\<close>

definition buildWeeklyBreakdown ::
  "DailyTrafficPoint list \<Rightarrow> string \<Rightarrow> string \<Rightarrow> WeeklyTrafficRow list" where
  "buildWeeklyBreakdown daily start endExclusive =
     (case (newDate (start @ ''T00:00:00Z''), newDate (endExclusive @ ''T00:00:00Z'')) of
        (Some cursor, Some monthEnd) \<Rightarrow> weeklyLoop (byDateOf daily) 1 cursor monthEnd
      | _ \<Rightarrow> [])"

text \<open>
  The windows \<open>[weekStart, weekEnd)\<close> of the passes of the outer loop, in order: the
  same loop, keeping the two bounds of each pass instead of its row
  (lemma \<open>weeklyLoop_windows\<close> below).
\<close>

function weekWindows :: "Date \<Rightarrow> Date \<Rightarrow> (Date \<times> Date) list" where
  "weekWindows cursor monthEnd =
     (if cursor < monthEnd then
        (cursor, weekEndOf cursor monthEnd) # weekWindows (weekEndOf cursor monthEnd) monthEnd
      else [])"
  by pat_completeness auto
termination
  by (relation "measure (\<lambda>(cursor, monthEnd). nat (monthEnd - cursor))")
    (simp_all add: weekEndOf_eq)

declare weekWindows.simps [simp del]

text \<open>What one day contributes to the three sums of its window.\<close>

definition dayTotals ::
  "(string \<rightharpoonup> DailyTrafficPoint) \<Rightarrow> Date \<Rightarrow> number \<times> number \<times> number" where
  "dayTotals byDate d =
     (case byDate (toIsoDate d) of
        Some point \<Rightarrow> (requests point, uniques point, bytes point)
      | None \<Rightarrow> (0, 0, 0))"

text \<open>
  The words of the specification about an override: it has the form \<^verbatim>\<open>YYYY-MM\<close>
  (four digits, a hyphen, two digits), and its two components as numbers.
\<close>

definition formatYYYYMM :: "string \<Rightarrow> bool" where
  "formatYYYYMM s =
     (case s of
        [a, b, c, d, h, e, f] \<Rightarrow>
          isDigit a \<and> isDigit b \<and> isDigit c \<and> isDigit d \<and> h = CHR ''-''
          \<and> isDigit e \<and> isDigit f
      | _ \<Rightarrow> False)"

definition yearComponent :: "string \<Rightarrow> int" where
  "yearComponent s = Number (take 4 s)"

definition monthComponent :: "string \<Rightarrow> int" where
  "monthComponent s = Number (drop 5 s)"

section \<open>\<^verbatim>\<open>cloudflare.ts\<close>\<close>

text \<open>
  A value found in the JSON of a response where a count is expected. A string carries
  what \<^verbatim>\<open>Number(value)\<close> makes of it, \<open>None\<close> when that is not finite; the string is
  used in no other way.
\<close>

datatype json_count =
    JsonNumber number
  | JsonString "number option"
  | JsonOther            \<comment> \<open>undefined, null, ...\<close>

text \<open>
  \<^verbatim>\<open>
  function toNumber(value: unknown): number {
    if (typeof value === "number") return value;
    if (typeof value === "string") {
      const parsed = Number(value);
      return Number.isFinite(parsed) ? parsed : 0;
    }
    return 0;
  }
  \<close>
\<close>

fun toNumber :: "json_count \<Rightarrow> number" where
  "toNumber (JsonNumber v) = v"
| "toNumber (JsonString parsed) = (case parsed of Some v \<Rightarrow> v | None \<Rightarrow> 0)"
| "toNumber JsonOther = 0"

text \<open>
  The data of a GraphQL response, \<^verbatim>\<open>{viewer?: {zones?: Array<{groups?: Array<g>}>}}\<close>:
  the list of zones when \<^verbatim>\<open>viewer\<close> and \<^verbatim>\<open>zones\<close> are there, each zone with its list of
  groups when it has one. \<^verbatim>\<open>graphqlRequest\<close> itself is the network: its outcome, the data
  or the error it throws, is an input of the functions below.
\<close>

type_synonym 'g query_response = "'g list option list option"

text \<open>\<^verbatim>\<open>data.viewer?.zones?.[0]\<close>\<close>

definition firstZone :: "'g query_response \<Rightarrow> 'g list option option" where
  "firstZone data = (case data of Some (zone # _) \<Rightarrow> Some zone | _ \<Rightarrow> None)"

record TrafficGroup =
  dimensions_date :: "string option"    \<comment> \<open>\<^verbatim>\<open>item.dimensions?.date\<close>\<close>
  sum_requests :: json_count            \<comment> \<open>\<^verbatim>\<open>item.sum?.requests\<close>\<close>
  sum_bytes :: json_count               \<comment> \<open>\<^verbatim>\<open>item.sum?.bytes\<close>\<close>
  uniq_uniques :: json_count            \<comment> \<open>\<^verbatim>\<open>item.uniq?.uniques\<close>\<close>

text \<open>
  \<^verbatim>\<open>
  (item) => ({
    date: item.dimensions?.date ?? "",
    requests: toNumber(item.sum?.requests),
    uniques: toNumber(item.uniq?.uniques),
    bytes: toNumber(item.sum?.bytes)
  })
  \<close>
\<close>

definition trafficPoint :: "TrafficGroup \<Rightarrow> DailyTrafficPoint" where
  "trafficPoint item =
     \<lparr> date = (case dimensions_date item of Some d \<Rightarrow> d | None \<Rightarrow> []),
       requests = toNumber (sum_requests item),
       uniques = toNumber (uniq_uniques item),
       bytes = toNumber (sum_bytes item) \<rparr>"

text \<open>The groups of the first zone of a response, none when a level is missing.\<close>

definition upstreamGroups :: "'g query_response \<Rightarrow> 'g list" where
  "upstreamGroups data = (case firstZone data of Some (Some groups) \<Rightarrow> groups | _ \<Rightarrow> [])"

text \<open>
  \<^verbatim>\<open>
  const zone = data.viewer?.zones?.[0];
  if (!zone?.httpRequests1dGroups) return [];
  return zone.httpRequests1dGroups
    .map(...)
    .filter((item) => item.date.length > 0)
    .sort((left, right) => left.date.localeCompare(right.date));
  \<close>
  \<^verbatim>\<open>Array.prototype.sort\<close> is stable, as is \<open>sort_key\<close>. \<^verbatim>\<open>localeCompare\<close> is read as the
  order of strings by character code, with which it agrees on dates written
  \<^verbatim>\<open>YYYY-MM-DD\<close>. An error of \<^verbatim>\<open>graphqlRequest\<close> is not caught.
\<close>

definition fetchTrafficDaily ::
  "string + TrafficGroup query_response \<Rightarrow> string + DailyTrafficPoint list" where
  "fetchTrafficDaily outcome =
     (case outcome of
        Inl e \<Rightarrow> Inl e
      | Inr data \<Rightarrow>
          (case firstZone data of
             Some (Some httpRequests1dGroups) \<Rightarrow>
               Inr (sort_key date
                      (filter (\<lambda>item. length (date item) > 0)
                         (map trafficPoint httpRequests1dGroups)))
           | _ \<Rightarrow> Inr []))"

record TopPath =
  path :: string
  path_requests :: number

record TopPathGroup =
  dimensions_clientRequestPath :: "string option"
  sum_path_requests :: json_count

text \<open>
  \<^verbatim>\<open>
  const groups = data.viewer?.zones?.[0]?.httpRequestsAdaptiveGroups ?? [];
  return groups.map((item) => ({
    path: item.dimensions?.clientRequestPath || "/",
    requests: toNumber(item.sum?.requests)
  }));
  \<close>
\<close>

definition fetchTopPaths :: "string + TopPathGroup query_response \<Rightarrow> string + TopPath list" where
  "fetchTopPaths outcome =
     (case outcome of
        Inl e \<Rightarrow> Inl e
      | Inr data \<Rightarrow>
          Inr (map (\<lambda>item.
                 \<lparr> path = (case dimensions_clientRequestPath item of
                             Some p \<Rightarrow> if p = [] then ''/'' else p
                           | None \<Rightarrow> ''/''),
                   path_requests = toNumber (sum_path_requests item) \<rparr>)
               (case firstZone data of Some (Some groups) \<Rightarrow> groups | _ \<Rightarrow> [])))"

record SecurityEventGroup =
  source :: string
  action :: string
  count :: number

record SecurityGroup =
  group_count :: json_count                 \<comment> \<open>\<^verbatim>\<open>item.count\<close>\<close>
  dimensions_source :: "string option"      \<comment> \<open>\<^verbatim>\<open>item.dimensions?.source\<close>\<close>
  dimensions_action :: "string option"      \<comment> \<open>\<^verbatim>\<open>item.dimensions?.action\<close>\<close>

text \<open>\<^verbatim>\<open>s.includes(sub)\<close>\<close>

fun startsWith :: "string \<Rightarrow> string \<Rightarrow> bool" where
  "startsWith s [] = True"
| "startsWith [] (p # ps) = False"
| "startsWith (c # cs) (p # ps) = (c = p \<and> startsWith cs ps)"

fun includesString :: "string \<Rightarrow> string \<Rightarrow> bool" where
  "includesString [] sub = (sub = [])"
| "includesString (c # cs) sub = (startsWith (c # cs) sub \<or> includesString cs sub)"

text \<open>
  \<^verbatim>\<open>fetchSecurityGroups\<close>, from the outcomes of its two requests; the second request is
  made only where the model reads \<open>fallback\<close>.
  \<^verbatim>\<open>
  try {
    const fullData = await graphqlRequest(env, sourceAndActionQuery, ...);
    const fullGroups = fullData.viewer?.zones?.[0]?.firewallEventsAdaptiveGroups ?? [];
    return fullGroups.map((item) => ({
      source: item.dimensions?.source ?? "unknown",
      action: item.dimensions?.action ?? "unknown",
      count: toNumber(item.count) }));
  } catch (primaryError: unknown) {
    const errorMsg = String(primaryError);
    // Zone doesn't have access (plan limitation): return empty gracefully
    if (errorMsg.includes("does not have access")) return [];
    // Try fallback with action-only query
    try {
      const actionOnlyData = await graphqlRequest(env, actionOnlyQuery, ...);
      const actionOnlyGroups = actionOnlyData.viewer?.zones?.[0]?.firewallEventsAdaptiveGroups ?? [];
      return actionOnlyGroups.map((item) => ({
        source: "unknown",
        action: item.dimensions?.action ?? "unknown",
        count: toNumber(item.count) }));
    } catch {
      // Both queries failed: return empty
      return [];
    }
  }
  \<close>
\<close>

definition fetchSecurityGroups ::
  "string + SecurityGroup query_response \<Rightarrow> string + SecurityGroup query_response
    \<Rightarrow> string + SecurityEventGroup list" where
  "fetchSecurityGroups primary fallback =
     (case primary of
        Inr fullData \<Rightarrow>
          Inr (map (\<lambda>item.
                 \<lparr> source = (case dimensions_source item of Some s \<Rightarrow> s | None \<Rightarrow> ''unknown''),
                   action = (case dimensions_action item of Some a \<Rightarrow> a | None \<Rightarrow> ''unknown''),
                   count = toNumber (group_count item) \<rparr>)
               (case firstZone fullData of Some (Some groups) \<Rightarrow> groups | _ \<Rightarrow> []))
      | Inl errorMsg \<Rightarrow>
          if includesString errorMsg ''does not have access'' then Inr []
          else
            (case fallback of
               Inr actionOnlyData \<Rightarrow>
                 Inr (map (\<lambda>item.
                        \<lparr> source = ''unknown'',
                          action = (case dimensions_action item of
                                      Some a \<Rightarrow> a | None \<Rightarrow> ''unknown''),
                          count = toNumber (group_count item) \<rparr>)
                      (case firstZone actionOnlyData of
                         Some (Some groups) \<Rightarrow> groups | _ \<Rightarrow> []))
             | Inl _ \<Rightarrow> Inr []))"

section \<open>\<^verbatim>\<open>pagespeed.ts\<close>\<close>

text \<open>
  The repository holds two copies of this module. The model is the shorter one; the
  longer one has the same \<^verbatim>\<open>normalizeScore\<close>, the same two \<^verbatim>\<open>catch\<close> handlers and the
  same \<^verbatim>\<open>url\<close>, \<^verbatim>\<open>mobile\<close> and \<^verbatim>\<open>desktop\<close> fields, and adds web vitals and opportunities
  to each result.
  \<^verbatim>\<open>
  function normalizeScore(rawScore: unknown): number | null {
    if (typeof rawScore !== "number") return null;
    if (rawScore >= 0 && rawScore <= 1) return Math.round(rawScore * 100);
    if (rawScore > 1 && rawScore <= 100) return Math.round(rawScore);
    return null;
  }
  \<close>
  \<^verbatim>\<open>rawScore * 100\<close> is the product of two doubles: the exact product rounded to the
  nearest double, \<open>roundDouble (rawScore * 100)\<close>. It is at most 100 here, far from the
  values that overflow (lemma \<open>fmul_unit_interval\<close>). \<^verbatim>\<open>Math.round\<close> is exact.
\<close>

fun normalizeScore :: "js_value \<Rightarrow> int option" where
  "normalizeScore JNotNumber = None"
| "normalizeScore (JNumber rawScore) =
     (if rawScore \<ge> 0 \<and> rawScore \<le> 1 then Some (Math_round (roundDouble (rawScore * 100)))
      else if rawScore > 1 \<and> rawScore \<le> 100 then Some (Math_round rawScore)
      else None)"
| "normalizeScore JNaN = None"
| "normalizeScore JPosInfinity = None"
| "normalizeScore JNegInfinity = None"

record LighthouseScores =
  performance :: "int option"
  accessibility :: "int option"
  bestPractices :: "int option"
  seo :: "int option"

definition emptyScores :: LighthouseScores where
  "emptyScores =
     \<lparr> performance = None, accessibility = None, bestPractices = None, seo = None \<rparr>"

datatype strategy = Mobile | Desktop

definition strategyName :: "strategy \<Rightarrow> string" where
  "strategyName s = (case s of Mobile \<Rightarrow> ''mobile'' | Desktop \<Rightarrow> ''desktop'')"

text \<open>
  The four \<^verbatim>\<open>categories?.x?.score\<close> of a response that was received and parsed; an
  absent score is \<open>JNotNumber\<close>.
\<close>

record PageSpeedPayload =
  performance_score :: js_value
  accessibility_score :: js_value
  best_practices_score :: js_value
  seo_score :: js_value

text \<open>
  \<^verbatim>\<open>runPageSpeed\<close> from the outcome of its request: \<open>Inl\<close> when the request, the status
  check or \<^verbatim>\<open>JSON.parse\<close> throws.
\<close>

definition runPageSpeed :: "string + PageSpeedPayload \<Rightarrow> string + LighthouseScores" where
  "runPageSpeed outcome =
     (case outcome of
        Inl e \<Rightarrow> Inl e
      | Inr payload \<Rightarrow>
          Inr \<lparr> performance = normalizeScore (performance_score payload),
                accessibility = normalizeScore (accessibility_score payload),
                bestPractices = normalizeScore (best_practices_score payload),
                seo = normalizeScore (seo_score payload) \<rparr>)"

record PageSpeedResult =
  url :: string
  mobile :: LighthouseScores
  desktop :: LighthouseScores

record PageSpeedBundle =
  results :: "PageSpeedResult list"
  bundle_warnings :: "string list"

text \<open>\<^verbatim>\<open>Array.from(new Set(urls))\<close>: the first occurrence of each element, in order.\<close>

definition arrayFromSet :: "'a list \<Rightarrow> 'a list" where
  "arrayFromSet xs = foldl (\<lambda>seen x. if x \<in> set seen then seen else seen @ [x]) [] xs"

text \<open>
  The network as \<^verbatim>\<open>fetchPageSpeedForUrls\<close> sees it: the outcome of the probe of a URL with
  a strategy, and, for a URL whose two probes both fail, which of the two rejections
  is handled first (the two run concurrently under \<^verbatim>\<open>Promise.all\<close>).
\<close>

record PageSpeedNetwork =
  probe :: "string \<Rightarrow> strategy \<Rightarrow> string + PageSpeedPayload"
  desktopFirst :: "string \<Rightarrow> bool"

text \<open>
  \<^verbatim>\<open>
  runPageSpeed(apiKey, url, "desktop").catch((error: unknown) => {
    warnings.push(`PageSpeed desktop failed for ${url}: ${String(error)}`);
    return emptyScores();
  })
  \<close>
  The scores of one probe and the warnings its handler pushes.
\<close>

definition probeOrEmpty ::
  "PageSpeedNetwork \<Rightarrow> string \<Rightarrow> strategy \<Rightarrow> LighthouseScores \<times> string list" where
  "probeOrEmpty net u s =
     (case runPageSpeed (probe net u s) of
        Inr scores \<Rightarrow> (scores, [])
      | Inl error \<Rightarrow>
          (emptyScores,
           [''PageSpeed '' @ strategyName s @ '' failed for '' @ u @ '': '' @ error]))"

text \<open>One pass of \<^verbatim>\<open>for (const url of uniqueUrls)\<close>: the result pushed and the warnings pushed.\<close>

definition probeUrl :: "PageSpeedNetwork \<Rightarrow> string \<Rightarrow> PageSpeedResult \<times> string list" where
  "probeUrl net u =
     (let (mobileScores, mobileWarnings) = probeOrEmpty net u Mobile;
          (desktopScores, desktopWarnings) = probeOrEmpty net u Desktop in
      (\<lparr> url = u, mobile = mobileScores, desktop = desktopScores \<rparr>,
       if desktopFirst net u then desktopWarnings @ mobileWarnings
       else mobileWarnings @ desktopWarnings))"

text \<open>
  \<^verbatim>\<open>
  const warnings: string[] = [];
  const uniqueUrls = Array.from(new Set(urls)).filter((value) => value.length > 0);
  const results: PageSpeedResult[] = [];
  for (const url of uniqueUrls) { ...; results.push({ url, mobile, desktop }); }
  return { results, warnings };
  \<close>
\<close>

definition uniqueUrls :: "string list \<Rightarrow> string list" where
  "uniqueUrls urls = filter (\<lambda>v. length v > 0) (arrayFromSet urls)"

definition fetchPageSpeedForUrls :: "PageSpeedNetwork \<Rightarrow> string list \<Rightarrow> PageSpeedBundle" where
  "fetchPageSpeedForUrls net urls =
     foldl (\<lambda>bundle u.
              (case probeUrl net u of
                 (result, pushed) \<Rightarrow>
                   \<lparr> results = results bundle @ [result],
                     bundle_warnings = bundle_warnings bundle @ pushed \<rparr>))
       \<lparr> results = [], bundle_warnings = [] \<rparr> (uniqueUrls urls)"

section \<open>\<^verbatim>\<open>reporting.ts\<close>\<close>

text \<open>
  The repository holds two copies of this module. The model is the later one, which
  adds the run records and the \<^verbatim>\<open>wordpress\<close> section; where the earlier copy differs in
  what a claim is about (\<^verbatim>\<open>safeFetchSecurity\<close>), both are modelled.
\<close>

record MetricWithDelta =
  current :: number
  previous :: number
  deltaPercent :: "double option"

text \<open>
  \<^verbatim>\<open>
  const deltaPercent =
    previous === 0 ? (current === 0 ? 0 : null) : ((current - previous) / previous) * 100;
  return { current, previous, deltaPercent };
  \<close>
  The two arguments are finite doubles, sums of counts. The difference, the quotient
  and the product are operations on doubles, each rounded; \<open>null\<close> is \<open>None\<close>.
\<close>

definition withDelta :: "number \<Rightarrow> number \<Rightarrow> MetricWithDelta" where
  "withDelta cur prev =
     \<lparr> current = cur, previous = prev,
       deltaPercent =
         (if prev = 0 then (if cur = 0 then Some (Finite 0) else None)
          else Some (fmul (fdiv (fsub (Finite cur) (Finite prev)) (Finite prev)) (Finite 100))) \<rparr>"

text \<open>\<^verbatim>\<open>sumTraffic\<close>: \<^verbatim>\<open>daily.reduce(...)\<close> from \<^verbatim>\<open>{requests: 0, uniques: 0, bytes: 0}\<close>.\<close>

definition sumTraffic :: "DailyTrafficPoint list \<Rightarrow> number \<times> number \<times> number" where
  "sumTraffic daily =
     foldl (\<lambda>(rq, un, by) point. (rq + requests point, un + uniques point, by + bytes point))
       (0, 0, 0) daily"

record SecurityCategoryRow =
  cat_label :: string
  cat_count :: number

record SecuritySnapshot =
  totalFirewallActions :: number
  botRateLimitActions :: number
  topCategories :: "SecurityCategoryRow list"

text \<open>\<^verbatim>\<open>s.toLowerCase()\<close> on ASCII.\<close>

definition toLowerCase :: "string \<Rightarrow> string" where
  "toLowerCase s =
     map (\<lambda>c. case map_of (zip ''ABCDEFGHIJKLMNOPQRSTUVWXYZ'' ''abcdefghijklmnopqrstuvwxyz'') c of
                 Some l \<Rightarrow> l | None \<Rightarrow> c) s"

definition firewallActions :: "string list" where
  "firewallActions = [''block'', ''challenge'', ''js_challenge'', ''managed_challenge'']"

text \<open>
  A JavaScript \<^verbatim>\<open>Map\<close> keeps its entries in the order in which their keys were first
  set: \<^verbatim>\<open>set\<close> on a key that is there replaces the value in place, \<^verbatim>\<open>set\<close> on a new key
  appends an entry.
\<close>

fun mapSet :: "('k \<times> 'v) list \<Rightarrow> 'k \<Rightarrow> 'v \<Rightarrow> ('k \<times> 'v) list" where
  "mapSet [] k v = [(k, v)]"
| "mapSet ((k', v') # entries) k v =
     (if k' = k then (k, v) # entries else (k', v') # mapSet entries k v)"

definition mapGet :: "('k \<times> 'v) list \<Rightarrow> 'k \<Rightarrow> 'v option" where
  "mapGet entries k = map_of entries k"

text \<open>\<^verbatim>\<open>`${group.source}/${group.action}`\<close>\<close>

definition categoryLabel :: "SecurityEventGroup \<Rightarrow> string" where
  "categoryLabel g = source g @ ''/'' @ action g"

text \<open>
  One pass of \<^verbatim>\<open>for (const group of groups)\<close> on the two counters and \<^verbatim>\<open>byCategory\<close>:
  \<^verbatim>\<open>
  const actionLower = group.action.toLowerCase();
  const sourceLower = group.source.toLowerCase();
  if (firewallActions.has(actionLower)) totalFirewallActions += group.count;
  if (actionLower.includes("bot") || actionLower.includes("rate")) {
    botRateLimitActions += group.count;
  } else if (sourceLower.includes("bot") || sourceLower.includes("rate")) {
    botRateLimitActions += group.count;
  }
  const label = `${group.source}/${group.action}`;
  byCategory.set(label, (byCategory.get(label) ?? 0) + group.count);
  \<close>
\<close>

definition securityStep ::
  "number \<times> number \<times> (string \<times> number) list \<Rightarrow> SecurityEventGroup
    \<Rightarrow> number \<times> number \<times> (string \<times> number) list" where
  "securityStep state g =
     (case state of
        (firewall, bots, byCategory) \<Rightarrow>
          (let actionLower = toLowerCase (action g);
               sourceLower = toLowerCase (source g);
               l = categoryLabel g in
           (if actionLower \<in> set firewallActions then firewall + count g else firewall,
            if includesString actionLower ''bot'' \<or> includesString actionLower ''rate'' then bots + count g
            else if includesString sourceLower ''bot'' \<or> includesString sourceLower ''rate''
              then bots + count g
            else bots,
            mapSet byCategory l
              ((case mapGet byCategory l of Some c \<Rightarrow> c | None \<Rightarrow> 0) + count g))))"

text \<open>
  \<^verbatim>\<open>
  const topCategories = Array.from(byCategory.entries())
    .sort((left, right) => right[1] - left[1])
    .slice(0, 3)
    .map(([label, count]) => ({ label, count }));
  \<close>
  The sort of JavaScript is stable; with the comparator \<^verbatim>\<open>right[1] - left[1]\<close> it puts
  larger counts first, which is the stable sort by the negated count.
\<close>

definition buildSecuritySnapshot :: "SecurityEventGroup list \<Rightarrow> SecuritySnapshot" where
  "buildSecuritySnapshot groups =
     (case foldl securityStep (0, 0, []) groups of
        (firewall, bots, byCategory) \<Rightarrow>
          \<lparr> totalFirewallActions = firewall,
            botRateLimitActions = bots,
            topCategories =
              map (\<lambda>(l, c). \<lparr> cat_label = l, cat_count = c \<rparr>)
                (take 3 (sort_key (\<lambda>entry. - snd entry) byCategory)) \<rparr>)"

text \<open>
  \<^verbatim>\<open>randomInt(min, max) = Math.floor(Math.random() * (max - min + 1)) + min\<close>, with the
  value \<open>r\<close> that \<^verbatim>\<open>Math.random()\<close> returns made a parameter.
\<close>

definition randomInt :: "int \<Rightarrow> int \<Rightarrow> number \<Rightarrow> int" where
  "randomInt lo hi r = \<lfloor>r * of_int (hi - lo + 1)\<rfloor> + lo"

record WordPressSnapshot =
  pluginsUpdated :: int
  totalPlugins :: int
  coreVersion :: string
  phpVersion :: string
  securityScanPassed :: bool
  lastBackup :: string
  sslValid :: bool
  databaseOptimized :: bool
  uptimePercent :: number
  malwareDetected :: bool

definition decimalInt :: "int \<Rightarrow> string" where
  "decimalInt n = (if n < 0 then ''-'' @ decimal (nat (- n)) else decimal (nat n))"

text \<open>\<^verbatim>\<open>s.padStart(2, "0")\<close>\<close>

definition padStart2 :: "string \<Rightarrow> string" where
  "padStart2 s = replicate (2 - length s) (CHR ''0'') @ s"

text \<open>\<^verbatim>\<open>parseFloat(x.toFixed(2))\<close>: \<open>x\<close> rounded to hundredths, ties upwards.\<close>

definition toFixed2 :: "number \<Rightarrow> number" where
  "toFixed2 x = of_int \<lfloor>x * 100 + 1 / 2\<rfloor> / 100"

text \<open>
  \<^verbatim>\<open>
  function buildWordPressSnapshot(monthKey: string): WordPressSnapshot {
    const totalPlugins = randomInt(18, 35);
    const pluginsUpdated = randomInt(3, Math.min(totalPlugins, 15));
    // Generate a realistic backup date within the report month
    const backupDay = randomInt(1, 28);
    const lastBackup = `${monthKey}-${String(backupDay).padStart(2, "0")}T03:00:00Z`;
    return {
      pluginsUpdated, totalPlugins, coreVersion: "6.7.2", phpVersion: "8.3.15",
      securityScanPassed: true, lastBackup, sslValid: true, databaseOptimized: true,
      uptimePercent: parseFloat((99.5 + Math.random() * 0.49).toFixed(2)),
      malwareDetected: false
    };
  }
  \<close>
  \<open>random k\<close> is what the \<open>k\<close>-th call of \<^verbatim>\<open>Math.random()\<close> of the run returns, a number
  from 0 up to but not including 1; no other code of the run calls \<^verbatim>\<open>Math.random\<close>.
\<close>

definition buildWordPressSnapshot :: "string \<Rightarrow> (nat \<Rightarrow> number) \<Rightarrow> WordPressSnapshot" where
  "buildWordPressSnapshot key random =
     (let plugins = randomInt 18 35 (random 0);
          updated = randomInt 3 (min plugins 15) (random 1);
          backupDay = randomInt 1 28 (random 2) in
      \<lparr> pluginsUpdated = updated,
        totalPlugins = plugins,
        coreVersion = ''6.7.2'',
        phpVersion = ''8.3.15'',
        securityScanPassed = True,
        lastBackup = key @ ''-'' @ padStart2 (decimalInt backupDay) @ ''T03:00:00Z'',
        sslValid = True,
        databaseOptimized = True,
        uptimePercent = toFixed2 (995 / 10 + random 3 * (49 / 100)),
        malwareDetected = False \<rparr>)"

text \<open>\<^verbatim>\<open>normalizeWarnings(warnings) = warnings.map((warning) => warning.slice(0, 450))\<close>\<close>

definition normalizeWarnings :: "string list \<Rightarrow> string list" where
  "normalizeWarnings ws = map (take 450) ws"

text \<open>\<^verbatim>\<open>config.ts\<close>: the one site of the prototype.\<close>

record SiteConfig =
  cfg_clientId :: string
  cfg_zoneId :: string
  cfg_domain :: string
  pagespeedUrls :: "string list"

definition SITE_CONFIG :: SiteConfig where
  "SITE_CONFIG =
     \<lparr> cfg_clientId = ''demo-client'', cfg_zoneId = ''REPLACE_WITH_ZONE_ID'',
       cfg_domain = ''example.com'', pagespeedUrls = [''https://example.com/''] \<rparr>"

text \<open>
  \<^verbatim>\<open>
  try { return await fetchTopPaths(...); }
  catch (error: unknown) { warnings.push(`Top paths unavailable: ${String(error)}`); return []; }
  \<close>
  The shared array \<^verbatim>\<open>warnings\<close> is passed in and returned.
\<close>

definition safeFetchTopPaths ::
  "string + TopPathGroup query_response \<Rightarrow> string list \<Rightarrow> TopPath list \<times> string list" where
  "safeFetchTopPaths outcome ws =
     (case fetchTopPaths outcome of
        Inr paths \<Rightarrow> (paths, ws)
      | Inl error \<Rightarrow> ([], ws @ [''Top paths unavailable: '' @ error]))"

text \<open>
  \<^verbatim>\<open>
  async function safeFetchSecurity(env, period, _warnings: string[]) {
    try { return await fetchSecurityGroups(...); }
    catch {
      // Security analytics may be unavailable on certain plans: fail silently
      return [];
    }
  }
  \<close>
\<close>

definition safeFetchSecurity ::
  "string + SecurityGroup query_response \<Rightarrow> string + SecurityGroup query_response
    \<Rightarrow> string list \<Rightarrow> SecurityEventGroup list \<times> string list" where
  "safeFetchSecurity primary fallback ws =
     (case fetchSecurityGroups primary fallback of
        Inr groups \<Rightarrow> (groups, ws)
      | Inl _ \<Rightarrow> ([], ws))"

text \<open>
  The earlier copy of the module:
  \<^verbatim>\<open>
  catch (error: unknown) {
    warnings.push(`Security analytics unavailable: ${String(error)}`);
    return [];
  }
  \<close>
\<close>

definition safeFetchSecurity_earlier ::
  "string + SecurityGroup query_response \<Rightarrow> string + SecurityGroup query_response
    \<Rightarrow> string list \<Rightarrow> SecurityEventGroup list \<times> string list" where
  "safeFetchSecurity_earlier primary fallback ws =
     (case fetchSecurityGroups primary fallback of
        Inr groups \<Rightarrow> (groups, ws)
      | Inl error \<Rightarrow> ([], ws @ [''Security analytics unavailable: '' @ error]))"

record TrafficSnapshot =
  traffic_requests :: MetricWithDelta
  uniqueVisitors :: MetricWithDelta
  bandwidth :: MetricWithDelta
  weeklyBreakdown :: "WeeklyTrafficRow list"
  topPaths :: "TopPath list"

record ReportSnapshot =
  clientId :: string
  zoneId :: string
  domain :: string
  snapshot_monthKey :: string
  monthLabel :: string
  timezone :: string
  generatedAt :: string
  author :: string
  traffic :: TrafficSnapshot
  security :: SecuritySnapshot
  snapshot_performance :: "PageSpeedResult list"
  wordpress :: WordPressSnapshot
  warnings :: "string list"

text \<open>
  What the fetches of a run hand to the assembly of the snapshot: the aggregation
  result.
\<close>

record Aggregation =
  currentDaily :: "DailyTrafficPoint list"
  previousDaily :: "DailyTrafficPoint list"
  fetchedTopPaths :: "TopPath list"
  securityGroups :: "SecurityEventGroup list"
  pageSpeedResults :: "PageSpeedResult list"
  collectedWarnings :: "string list"

text \<open>
  The assembly step of \<^verbatim>\<open>generateMonthlyReport\<close>:
  \<^verbatim>\<open>
  const current = sumTraffic(currentDaily);
  const previous = sumTraffic(previousDaily);
  const monthLabel = formatMonthLabel(period.monthKey, timezone);
  const snapshot: ReportSnapshot = {
    clientId: SITE_CONFIG.clientId, zoneId: SITE_CONFIG.zoneId, domain: SITE_CONFIG.domain,
    monthKey: period.monthKey, monthLabel, timezone,
    generatedAt: nowIso(),
    author: "Bernard McWeeney",
    traffic: {
      requests: withDelta(current.requests, previous.requests),
      uniqueVisitors: withDelta(current.uniques, previous.uniques),
      bandwidth: withDelta(current.bytes, previous.bytes),
      weeklyBreakdown: buildWeeklyBreakdown(currentDaily, period.startDate, period.endDateExclusive),
      topPaths
    },
    security: buildSecuritySnapshot(securityGroups),
    performance: pageSpeedBundle.results,
    wordpress: buildWordPressSnapshot(period.monthKey),
    warnings: normalizeWarnings(warnings)
  };
  \<close>
  \<^verbatim>\<open>formatMonthLabel\<close> formats with \<^verbatim>\<open>Intl.DateTimeFormat\<close> in the time zone of the report;
  it is the parameter \<open>formatMonthLabel\<close>. \<open>nowIso\<close> is the reading of the clock and
  \<open>random\<close> the values of \<^verbatim>\<open>Math.random()\<close>.
\<close>

definition assembleSnapshot ::
  "(string \<Rightarrow> string \<Rightarrow> string) \<Rightarrow> MonthPeriod \<Rightarrow> string \<Rightarrow> Aggregation \<Rightarrow> string
    \<Rightarrow> (nat \<Rightarrow> number) \<Rightarrow> ReportSnapshot" where
  "assembleSnapshot formatMonthLabel period tz agg nowIso random =
     (case (sumTraffic (currentDaily agg), sumTraffic (previousDaily agg)) of
        ((cur_requests, cur_uniques, cur_bytes), (prev_requests, prev_uniques, prev_bytes)) \<Rightarrow>
          \<lparr> clientId = cfg_clientId SITE_CONFIG,
            zoneId = cfg_zoneId SITE_CONFIG,
            domain = cfg_domain SITE_CONFIG,
            snapshot_monthKey = monthKey period,
            monthLabel = formatMonthLabel (monthKey period) tz,
            timezone = tz,
            generatedAt = nowIso,
            author = ''Bernard McWeeney'',
            traffic =
              \<lparr> traffic_requests = withDelta cur_requests prev_requests,
                uniqueVisitors = withDelta cur_uniques prev_uniques,
                bandwidth = withDelta cur_bytes prev_bytes,
                weeklyBreakdown =
                  buildWeeklyBreakdown (currentDaily agg) (startDate period)
                    (endDateExclusive period),
                topPaths = fetchedTopPaths agg \<rparr>,
            security = buildSecuritySnapshot (securityGroups agg),
            snapshot_performance = pageSpeedResults agg,
            wordpress = buildWordPressSnapshot (monthKey period) random,
            warnings = normalizeWarnings (collectedWarnings agg) \<rparr>)"

text \<open>
  Everything outside the program that a run reads: the clock, the environment, the
  random numbers, \<^verbatim>\<open>Intl\<close>, and the outcome of each request (for the traffic query, by
  its two date bounds).
\<close>

record World =
  clock_now :: Date
  clock_nowIso :: string
  REPORT_TIMEZONE :: "string option"
  math_random :: "nat \<Rightarrow> number"
  intl_monthLabel :: "string \<Rightarrow> string \<Rightarrow> string"
  traffic_outcome :: "string \<Rightarrow> string \<Rightarrow> string + TrafficGroup query_response"
  topPaths_outcome :: "string + TopPathGroup query_response"
  security_outcome :: "string + SecurityGroup query_response"
  security_fallback_outcome :: "string + SecurityGroup query_response"
  pagespeed_network :: PageSpeedNetwork

text \<open>
  \<^verbatim>\<open>generateMonthlyReport\<close> up to and including the snapshot. The run records, the
  rendering, the PDF and the two stores come after it or beside it and are not
  modelled. An error of \<^verbatim>\<open>buildMonthPeriod\<close> or of a traffic fetch ends the run (\<open>Inl\<close>);
  when both traffic fetches fail, the model reports the error of the first.
  \<^verbatim>\<open>
  const period = buildMonthPeriod(new Date(), options.monthOverride);
  const warnings: string[] = [];
  const timezone = env.REPORT_TIMEZONE || "UTC";
  const [currentDaily, previousDaily] = await Promise.all([
    fetchTrafficDaily(env, SITE_CONFIG.zoneId, period.startDate, period.endDateExclusive),
    fetchTrafficDaily(env, SITE_CONFIG.zoneId, period.prevStartDate, period.prevEndDateExclusive)
  ]);
  const [topPaths, securityGroups, pageSpeedBundle] = await Promise.all([
    safeFetchTopPaths(env, period, warnings),
    safeFetchSecurity(env, period, warnings),
    fetchPageSpeedForUrls(env.PSI_API_KEY, SITE_CONFIG.pagespeedUrls)
  ]);
  warnings.push(...pageSpeedBundle.warnings);
  \<close>
\<close>

definition generateSnapshot :: "World \<Rightarrow> string option \<Rightarrow> string + ReportSnapshot" where
  "generateSnapshot w monthOverride =
     (case buildMonthPeriod (clock_now w) monthOverride of
        Inl e \<Rightarrow> Inl e
      | Inr period \<Rightarrow>
          (let tz = (case REPORT_TIMEZONE w of
                       Some z \<Rightarrow> if z \<noteq> [] then z else ''UTC'' | None \<Rightarrow> ''UTC'') in
           case fetchTrafficDaily
                  (traffic_outcome w (startDate period) (endDateExclusive period)) of
             Inl e \<Rightarrow> Inl e
           | Inr cur \<Rightarrow>
               (case fetchTrafficDaily
                       (traffic_outcome w (prevStartDate period) (prevEndDateExclusive period)) of
                  Inl e \<Rightarrow> Inl e
                | Inr prev \<Rightarrow>
                    (case safeFetchTopPaths (topPaths_outcome w) [] of
                       (paths, ws1) \<Rightarrow>
                         (case safeFetchSecurity (security_outcome w)
                                 (security_fallback_outcome w) ws1 of
                            (groups, ws2) \<Rightarrow>
                              (let bundle = fetchPageSpeedForUrls (pagespeed_network w)
                                              (pagespeedUrls SITE_CONFIG) in
                               Inr (assembleSnapshot (intl_monthLabel w) period tz
                                      \<lparr> currentDaily = cur, previousDaily = prev,
                                        fetchedTopPaths = paths, securityGroups = groups,
                                        pageSpeedResults = results bundle,
                                        collectedWarnings = ws2 @ bundle_warnings bundle \<rparr>
                                      (clock_nowIso w) (math_random w))))))))"








section \<open>Lemmas\<close>

subsection \<open>Evaluation helpers\<close>

lemma floor_rat_numeral [simp]:
  "\<lfloor>(numeral a / numeral b :: rat)\<rfloor> = numeral a div numeral b"
  using floor_divide_of_int_eq [of "numeral a" "numeral b", where ?'a = rat] by simp

subsection \<open>The calendar\<close>

lemma DayFromYear_mono_nat: "DayFromYear y + 365 * int k \<le> DayFromYear (y + int k)"
proof (induction k)
  case 0
  then show ?case by simp
next
  case (Suc k)
  have "DayFromYear (y + int (Suc k)) = DayFromYear (y + int k) + DaysInYear (y + int k)"
    using DayFromYear_step [of "y + int k"] by (simp add: add.commute add.left_commute)
  with Suc DaysInYear_ge [of "y + int k"] show ?case by simp
qed

lemma DayFromYear_strict_mono: "y < y' \<Longrightarrow> DayFromYear y < DayFromYear y'"
  using DayFromYear_mono_nat [of y "nat (y' - y)"] by simp

lemma yearDown_bound: "DayFromYear (yearDown y t) \<le> t"
proof (induction y t rule: yearDown.induct)
  case (1 y t)
  then show ?case by (subst yearDown.simps) simp
qed

lemma yearUp_bounds:
  "DayFromYear y \<le> t \<Longrightarrow> DayFromYear (yearUp y t) \<le> t \<and> t < DayFromYear (yearUp y t + 1)"
proof (induction y t rule: yearUp.induct)
  case (1 y t)
  show ?case
  proof (cases "DayFromYear (y + 1) \<le> t")
    case True
    with "1.IH" show ?thesis by (subst (1 2) yearUp.simps) simp
  next
    case False
    with "1.prems" show ?thesis by (subst (1 2) yearUp.simps) simp
  qed
qed

lemma year_unique:
  assumes "DayFromYear y \<le> t" "t < DayFromYear (y + 1)"
    and "DayFromYear y' \<le> t" "t < DayFromYear (y' + 1)"
  shows "y = y'"
proof (rule ccontr)
  assume "y \<noteq> y'"
  then consider "y + 1 \<le> y'" | "y' + 1 \<le> y" by linarith
  then show False
  proof cases
    case 1
    then have "DayFromYear (y + 1) \<le> DayFromYear y'"
      using DayFromYear_strict_mono [of "y + 1" y'] by (cases "y + 1 = y'") auto
    with assms show False by linarith
  next
    case 2
    then have "DayFromYear (y' + 1) \<le> DayFromYear y"
      using DayFromYear_strict_mono [of "y' + 1" y] by (cases "y' + 1 = y") auto
    with assms show False by linarith
  qed
qed

lemma YearFromTime_bounds:
  "DayFromYear (YearFromTime t) \<le> t \<and> t < DayFromYear (YearFromTime t + 1)"
  unfolding YearFromTime_def by (rule yearUp_bounds) (rule yearDown_bound)

lemma YearFromTime_eqI:
  "DayFromYear y \<le> t \<Longrightarrow> t < DayFromYear y + DaysInYear y \<Longrightarrow> YearFromTime t = y"
  using YearFromTime_bounds [of t] year_unique [of "YearFromTime t" t y]
  by (simp add: DayFromYear_step)

lemma month_cases:
  fixes m :: int
  assumes "0 \<le> m" "m < 12"
  shows "m = 0 \<or> m = 1 \<or> m = 2 \<or> m = 3 \<or> m = 4 \<or> m = 5 \<or> m = 6 \<or> m = 7
      \<or> m = 8 \<or> m = 9 \<or> m = 10 \<or> m = 11"
  using assms by arith

lemma InLeapYear_cases:
  "InLeapYear y = 0 \<and> DaysInYear y = 365 \<or> InLeapYear y = 1 \<and> DaysInYear y = 366"
  by (simp add: InLeapYear_def DaysInYear_def)

lemma monthStart_range:
  assumes "0 \<le> m" "m < 12"
  shows "0 \<le> monthStart (InLeapYear y) m \<and> monthStart (InLeapYear y) m < DaysInYear y"
  using month_cases [OF assms] InLeapYear_cases [of y]
  by (elim disjE conjE) (simp_all add: monthStart_def)

text \<open>The first day of a month reads back as its year, its month and the day 1.\<close>

lemma first_of_month:
  assumes m: "0 \<le> m" "m < 12"
  shows "YearFromTime (MakeDay y m 1) = y"
    and "MonthFromTime (MakeDay y m 1) = m"
    and "DateFromTime (MakeDay y m 1) = 1"
proof -
  let ?l = "InLeapYear y"
  have dm: "m div 12 = 0" "m mod 12 = m" using m by simp_all
  have t: "MakeDay y m 1 = DayFromYear y + monthStart ?l m"
    by (simp add: MakeDay_def dm)
  show y: "YearFromTime (MakeDay y m 1) = y"
    unfolding t using monthStart_range [OF m, of y] by (intro YearFromTime_eqI) simp_all
  have d: "DayWithinYear (MakeDay y m 1) = monthStart ?l m"
    unfolding DayWithinYear_def y by (simp add: t)
  have l: "?l = 0 \<or> ?l = 1" by (simp add: InLeapYear_def)
  show mm: "MonthFromTime (MakeDay y m 1) = m"
    unfolding MonthFromTime_def d y Let_def using l month_cases [OF m]
    by (elim disjE) (simp_all add: monthStart_def)
  show "DateFromTime (MakeDay y m 1) = 1"
    unfolding DateFromTime_def d y mm by simp
qed

lemma DaysInMonth_range:
  assumes "0 \<le> m" "m < 12"
  shows "28 \<le> DaysInMonth y m \<and> DaysInMonth y m \<le> 31"
  using month_cases [OF assms] InLeapYear_cases [of y]
  by (elim disjE conjE) (simp_all add: DaysInMonth_def monthStart_def)

subsection \<open>Decimal digits\<close>

lemma digit_roundtrip:
  assumes "isDigit c"
  shows "digitChar (digitValue c) = c" and "0 \<le> digitValue c" and "digitValue c \<le> 9"
  using assms by (auto simp add: isDigit_def digitValue_def digitChar_def)

lemma digitChar_value:
  assumes "0 \<le> d" "d \<le> 9"
  shows "digitValue (digitChar d) = d" and "isDigit (digitChar d)"
proof -
  have "d = 0 \<or> d = 1 \<or> d = 2 \<or> d = 3 \<or> d = 4 \<or> d = 5 \<or> d = 6 \<or> d = 7 \<or> d = 8 \<or> d = 9"
    using assms by arith
  then show "digitValue (digitChar d) = d" and "isDigit (digitChar d)"
    by (auto simp add: isDigit_def digitValue_def digitChar_def)
qed

lemma Number_snoc: "Number (s @ [c]) = 10 * Number s + digitValue c"
  by (simp add: Number_def)

lemma Number_bounds: "list_all isDigit s \<Longrightarrow> 0 \<le> Number s \<and> Number s < 10 ^ length s"
proof (induction s rule: rev_induct)
  case Nil
  then show ?case by (simp add: Number_def)
next
  case (snoc c s)
  then have "0 \<le> Number s" "Number s + 1 \<le> 10 ^ length s"
    "0 \<le> digitValue c" "digitValue c \<le> 9"
    using digit_roundtrip [of c] by simp_all
  then show ?case by (simp add: Number_snoc)
qed

text \<open>Writing the number of a digit string with as many digits gives the string back.\<close>

lemma padDigits_Number: "list_all isDigit s \<Longrightarrow> padDigits (length s) (Number s) = s"
proof (induction s rule: rev_induct)
  case Nil
  then show ?case by simp
next
  case (snoc c s)
  then have c: "digitChar (digitValue c) = c" "0 \<le> digitValue c" "digitValue c < 10"
    using digit_roundtrip [of c] by simp_all
  have "(10 * Number s + digitValue c) div 10 = Number s"
    and "(10 * Number s + digitValue c) mod 10 = digitValue c"
    using c by simp_all
  with snoc c show ?case by (simp add: Number_snoc)
qed

lemma length_padDigits [simp]: "length (padDigits k n) = k"
  by (induction k arbitrary: n) simp_all

text \<open>Reading the \<open>k\<close> digits of a number below \<open>10 ^ k\<close> gives the number back.\<close>

lemma Number_padDigits:
  "0 \<le> n \<Longrightarrow> n < 10 ^ k \<Longrightarrow> Number (padDigits k n) = n \<and> list_all isDigit (padDigits k n)"
proof (induction k arbitrary: n)
  case 0
  then show ?case by (simp add: Number_def)
next
  case (Suc k)
  have d: "0 \<le> n mod 10" "n mod 10 \<le> 9" by simp_all
  have "10 * (n div 10) + n mod 10 = n" by simp
  with d Suc.prems have "0 \<le> n div 10" "n div 10 < 10 ^ k"
    by simp_all
  then have "Number (padDigits k (n div 10)) = n div 10"
    and "list_all isDigit (padDigits k (n div 10))"
    using Suc.IH by simp_all
  then show ?case
    using digitChar_value [OF d] by (simp add: Number_snoc)
qed

subsection \<open>The period\<close>

lemma toIsoDate_first:
  assumes "0 \<le> m" "m < 12" "0 \<le> y" "y \<le> 9999"
  shows "toIsoDate (MakeDay y m 1) = padDigits 4 y @ ''-'' @ padDigits 2 (m + 1) @ ''-01''"
proof -
  have d: "padDigits 2 1 = ''01''"
    by (simp add: numeral_2_eq_2 digitChar_def)
  have "toISOString (MakeDay y m 1)
      = (padDigits 4 y @ ''-'' @ padDigits 2 (m + 1) @ ''-01'') @ ''T00:00:00.000Z''"
    using assms by (simp add: toISOString_def first_of_month d)
  then show ?thesis
    by (simp add: toIsoDate_def)
qed

lemma length7:
  assumes "length s = 7"
  obtains a b c d h e f where "s = [a, b, c, d, h, e, f]"
  using assms by (auto simp add: eval_nat_numeral length_Suc_conv)

lemma formatYYYYMM_shape:
  assumes "formatYYYYMM s"
  obtains a b c d e f where "s = [a, b, c, d, CHR ''-'', e, f]"
    and "isDigit a" "isDigit b" "isDigit c" "isDigit d" "isDigit e" "isDigit f"
  using assms unfolding formatYYYYMM_def by (auto split: list.splits)

text \<open>The regular expression of the source matches exactly the strings of the form.\<close>

lemma matchMonthKey_format:
  "matchMonthKey s = (if formatYYYYMM s then Some (take 4 s, drop 5 s) else None)"
proof (cases "length s = 7")
  case True
  then obtain a b c d h e f where "s = [a, b, c, d, h, e, f]" by (rule length7)
  then show ?thesis by (simp add: matchMonthKey_def formatYYYYMM_def)
next
  case False
  then have "\<not> formatYYYYMM s"
    by (auto elim: formatYYYYMM_shape)
  with False show ?thesis by (simp add: matchMonthKey_def)
qed

lemma parseMonthOverride_cases:
  "parseMonthOverride s =
     (if \<not> formatYYYYMM s then Inl ''month must use YYYY-MM format''
      else if monthComponent s < 1 \<or> 12 < monthComponent s
        then Inl ''month must be between 01 and 12''
      else Inr (DateUTC (yearComponent s) (monthComponent s - 1) 1))"
  by (simp add: parseMonthOverride_def matchMonthKey_format yearComponent_def
      monthComponent_def Let_def)

lemma monthKey_override:
  assumes f: "formatYYYYMM s" and m: "1 \<le> monthComponent s" "monthComponent s \<le> 12"
    and y: "100 \<le> yearComponent s"
  shows "monthKey (periodOf (DateUTC (yearComponent s) (monthComponent s - 1) 1)) = s"
proof -
  from f obtain a b c d e f' where s: "s = [a, b, c, d, CHR ''-'', e, f']"
    and dg: "isDigit a" "isDigit b" "isDigit c" "isDigit d" "isDigit e" "isDigit f'"
    by (rule formatYYYYMM_shape)
  let ?y = "yearComponent s" and ?m = "monthComponent s"
  have ys: "list_all isDigit [a, b, c, d]" and ms: "list_all isDigit [e, f']"
    using dg by simp_all
  have yb: "?y \<le> 9999"
    using Number_bounds [OF ys] by (simp add: yearComponent_def s)
  have py: "padDigits 4 ?y = [a, b, c, d]"
    using padDigits_Number [OF ys] by (simp add: yearComponent_def s eval_nat_numeral)
  have pm: "padDigits 2 ?m = [e, f']"
    using padDigits_Number [OF ms] by (simp add: monthComponent_def s eval_nat_numeral)
  have "toIsoDate (MakeDay ?y (?m - 1) 1)
      = padDigits 4 ?y @ ''-'' @ padDigits 2 (?m - 1 + 1) @ ''-01''"
    using m y yb by (intro toIsoDate_first) simp_all
  then have "toIsoDate (DateUTC ?y (?m - 1) 1) = [a, b, c, d] @ ''-'' @ [e, f'] @ ''-01''"
    using y by (simp add: DateUTC_def py pm)
  then show ?thesis
    by (simp add: periodOf_def Let_def s)
qed

text \<open>
  The bound that \<open>toIsoDate\<close> writes for the first day of a month of the years 0000 to
  9999 is read back by \<open>newDate\<close> as that day.
\<close>

lemma newDate_first_of_month:
  assumes m: "0 \<le> m" "m < 12" and y: "0 \<le> y" "y \<le> 9999"
  shows "newDate (toIsoDate (MakeDay y m 1) @ ''T00:00:00Z'') = Some (MakeDay y m 1)"
proof -
  have ny: "Number (padDigits 4 y) = y" "list_all isDigit (padDigits 4 y)"
    using Number_padDigits [of y 4] y by simp_all
  have nm: "Number (padDigits 2 (m + 1)) = m + 1" "list_all isDigit (padDigits 2 (m + 1))"
    using Number_padDigits [of "m + 1" 2] m by simp_all
  obtain a b c d where py: "padDigits 4 y = [a, b, c, d]"
    using length_padDigits [of 4 y]
    by (auto simp add: eval_nat_numeral length_Suc_conv simp del: length_padDigits)
  obtain e f where pm: "padDigits 2 (m + 1) = [e, f]"
    using length_padDigits [of 2 "m + 1"]
    by (auto simp add: eval_nat_numeral length_Suc_conv simp del: length_padDigits)
  have n1: "Number ''01'' = 1"
    by (simp add: Number_def digitValue_def)
  have d1: "isDigit CHR ''0''" "isDigit CHR ''1''"
    by (simp_all add: isDigit_def)
  have dim: "1 \<le> DaysInMonth y m"
    using DaysInMonth_range [OF m, of y] by simp
  have iso: "toIsoDate (MakeDay y m 1) = [a, b, c, d] @ ''-'' @ [e, f] @ ''-01''"
    using toIsoDate_first [OF m y] by (simp add: py pm)
  show ?thesis
    unfolding iso using ny nm m dim n1 d1
    by (simp add: newDate_def py pm)
qed

text \<open>The month that follows month \<open>m\<close> of year \<open>y\<close> starts \<open>DaysInMonth y m\<close> days later.\<close>

lemma next_month_start:
  assumes m: "0 \<le> m" "m < 12"
  shows "MakeDay y (m + 1) 1 = MakeDay y m 1 + DaysInMonth y m"
proof (cases "m = 11")
  case True
  have "DayFromYear (y + 1) = DayFromYear y + DaysInYear y"
    by (rule DayFromYear_step)
  with True InLeapYear_cases [of y] show ?thesis
    by (auto simp add: MakeDay_def DaysInMonth_def monthStart_def)
next
  case False
  with m have "(m + 1) div 12 = 0" "(m + 1) mod 12 = m + 1" "m div 12 = 0" "m mod 12 = m"
    by simp_all
  with False show ?thesis
    by (simp add: MakeDay_def DaysInMonth_def)
qed

subsection \<open>The weekly windows\<close>

lemma weekWindows_Nil: "weekWindows c e = [] \<longleftrightarrow> \<not> c < e"
  by (subst weekWindows.simps) simp

lemma weekWindows_cover:
  "concat (map (\<lambda>(ws, we). [ws..we - 1]) (weekWindows c e)) = [c..e - 1]"
proof (induction c e rule: weekWindows.induct)
  case (1 c e)
  show ?case
  proof (cases "c < e")
    case True
    let ?w = "weekEndOf c e"
    have w: "c < ?w" "?w \<le> e" using True by (simp_all add: weekEndOf_eq)
    have "[c..e - 1] = [c..?w - 1] @ [?w..e - 1]"
    proof (cases "?w = e")
      case True
      then show ?thesis by simp
    next
      case False
      with w have "c \<le> ?w" "?w \<le> e - 1" by simp_all
      then show ?thesis by (rule upto_split1)
    qed
    with True "1.IH" show ?thesis
      by (subst weekWindows.simps) simp
  next
    case False
    then show ?thesis by (subst weekWindows.simps) simp
  qed
qed

lemma weekWindows_lengths:
  "list_all (\<lambda>(ws, we). 1 \<le> we - ws \<and> we - ws \<le> 7) (weekWindows c e)
   \<and> list_all (\<lambda>(ws, we). we - ws = 7) (butlast (weekWindows c e))"
proof (induction c e rule: weekWindows.induct)
  case (1 c e)
  show ?case
  proof (cases "c < e")
    case True
    let ?w = "weekEndOf c e"
    have w: "c < ?w" "?w \<le> c + 7" "?w < e \<Longrightarrow> ?w = c + 7"
      using True by (simp_all add: weekEndOf_eq)
    have unfold: "weekWindows c e = (c, ?w) # weekWindows ?w e"
      using True by (subst weekWindows.simps) simp
    from True "1.IH" w show ?thesis
      unfolding unfold by (auto simp add: weekWindows_Nil)
  next
    case False
    then have "weekWindows c e = []" by (simp add: weekWindows_Nil)
    then show ?thesis by simp
  qed
qed

lemma sumDays_acc:
  "sumDays byDate c e acc =
     (fst acc + (\<Sum>d\<leftarrow>[c..e - 1]. fst (dayTotals byDate d)),
      fst (snd acc) + (\<Sum>d\<leftarrow>[c..e - 1]. fst (snd (dayTotals byDate d))),
      snd (snd acc) + (\<Sum>d\<leftarrow>[c..e - 1]. snd (snd (dayTotals byDate d))))"
proof (induction byDate c e acc rule: sumDays.induct)
  case (1 byDate c e rq un "by")
  show ?case
  proof (cases "c < e")
    case True
    then have u: "[c..e - 1] = c # [c + 1..e - 1]"
      by (simp add: upto_rec1)
    from True "1.IH" show ?thesis
      by (subst sumDays.simps) (simp add: u dayTotals_def split: option.splits)
  next
    case False
    then show ?thesis by (subst sumDays.simps) simp
  qed
qed

text \<open>The rows of the loop are the rows of its windows, numbered from the first index.\<close>

lemma weeklyLoop_windows:
  "weeklyLoop byDate i c e =
     map (\<lambda>(k, ws, we). weekRow byDate k ws we) (enumerate i (weekWindows c e))"
proof (induction byDate i c e rule: weeklyLoop.induct)
  case (1 byDate i c e)
  show ?case
  proof (cases "c < e")
    case True
    with "1.IH" show ?thesis
      by (subst weeklyLoop.simps, subst weekWindows.simps) simp
  next
    case False
    then show ?thesis
      by (subst weeklyLoop.simps, subst weekWindows.simps) simp
  qed
qed

lemma weekRow_totals:
  "week_requests (weekRow byDate k ws we) = (\<Sum>d\<leftarrow>[ws..we - 1]. fst (dayTotals byDate d))"
  "week_uniques (weekRow byDate k ws we) = (\<Sum>d\<leftarrow>[ws..we - 1]. fst (snd (dayTotals byDate d)))"
  "week_bytes (weekRow byDate k ws we) = (\<Sum>d\<leftarrow>[ws..we - 1]. snd (snd (dayTotals byDate d)))"
  by (simp_all add: weekRow_def sumDays_acc Let_def)

lemma sum_list_concat_map:
  fixes f :: "'a \<Rightarrow> number"
  shows "(\<Sum>d\<leftarrow>concat (map g ws). f d) = (\<Sum>w\<leftarrow>ws. \<Sum>d\<leftarrow>g w. f d)"
  by (induction ws) simp_all

lemma sum_over_windows:
  fixes f :: "int \<Rightarrow> number"
  shows "(\<Sum>(ws, we)\<leftarrow>weekWindows c e. \<Sum>d\<leftarrow>[ws..we - 1]. f d) = (\<Sum>d\<leftarrow>[c..e - 1]. f d)"
proof -
  have "(\<Sum>d\<leftarrow>[c..e - 1]. f d)
      = (\<Sum>d\<leftarrow>concat (map (\<lambda>(ws, we). [ws..we - 1]) (weekWindows c e)). f d)"
    by (simp only: weekWindows_cover)
  also have "\<dots> = (\<Sum>w\<leftarrow>weekWindows c e. \<Sum>d\<leftarrow>(case w of (ws, we) \<Rightarrow> [ws..we - 1]). f d)"
    by (rule sum_list_concat_map)
  also have "\<dots> = (\<Sum>(ws, we)\<leftarrow>weekWindows c e. \<Sum>d\<leftarrow>[ws..we - 1]. f d)"
    by (simp add: case_prod_unfold)
  finally show ?thesis by simp
qed

section \<open>The claims about the period\<close>

text \<open>
  C4. For every pair of bounds that are days of the calendar, and so for the two
  bounds of every month period, the passes of the loop of \<open>buildWeeklyBreakdown\<close> visit
  windows \<open>[weekStart, weekEnd)\<close> whose days, put one after the other, are exactly the
  days from \<open>startDate\<close> up to the day before \<open>endDateExclusive\<close>, each once and in order:
  no gap and no overlap. Every window but the last has 7 days, and every window,
  the last included, has from 1 to 7. The rows returned are the rows of these windows
  in order, each row sums the points of the days of its window, and so the rows
  together count the points of every day of the period once.
\<close>

theorem buildWeeklyBreakdown_partition:
  assumes "newDate (start @ ''T00:00:00Z'') = Some a"
    and "newDate (endExclusive @ ''T00:00:00Z'') = Some b"
  shows "concat (map (\<lambda>(ws, we). [ws..we - 1]) (weekWindows a b)) = [a..b - 1]
    \<and> list_all (\<lambda>(ws, we). we - ws = 7) (butlast (weekWindows a b))
    \<and> list_all (\<lambda>(ws, we). 1 \<le> we - ws \<and> we - ws \<le> 7) (weekWindows a b)
    \<and> buildWeeklyBreakdown daily start endExclusive
        = map (\<lambda>(k, ws, we). weekRow (byDateOf daily) k ws we) (enumerate 1 (weekWindows a b))
    \<and> (\<forall>k ws we.
          week_requests (weekRow (byDateOf daily) k ws we)
            = (\<Sum>d\<leftarrow>[ws..we - 1]. fst (dayTotals (byDateOf daily) d))
          \<and> week_uniques (weekRow (byDateOf daily) k ws we)
            = (\<Sum>d\<leftarrow>[ws..we - 1]. fst (snd (dayTotals (byDateOf daily) d)))
          \<and> week_bytes (weekRow (byDateOf daily) k ws we)
            = (\<Sum>d\<leftarrow>[ws..we - 1]. snd (snd (dayTotals (byDateOf daily) d))))
    \<and> (\<Sum>row\<leftarrow>buildWeeklyBreakdown daily start endExclusive. week_requests row)
        = (\<Sum>d\<leftarrow>[a..b - 1]. fst (dayTotals (byDateOf daily) d))"
proof -
  let ?W = "weekWindows a b" and ?m = "byDateOf daily"
  have rows: "buildWeeklyBreakdown daily start endExclusive
      = map (\<lambda>(k, ws, we). weekRow ?m k ws we) (enumerate 1 ?W)"
    using assms by (simp add: buildWeeklyBreakdown_def weeklyLoop_windows)
  have "(\<Sum>row\<leftarrow>map (\<lambda>(k, ws, we). weekRow ?m k ws we) (enumerate 1 ?W). week_requests row)
      = (\<Sum>(ws, we)\<leftarrow>?W. \<Sum>d\<leftarrow>[ws..we - 1]. fst (dayTotals ?m d))"
  proof -
    have "map (week_requests \<circ> (\<lambda>(k, ws, we). weekRow ?m k ws we)) (enumerate 1 ?W)
        = map ((\<lambda>(ws, we). \<Sum>d\<leftarrow>[ws..we - 1]. fst (dayTotals ?m d)) \<circ> snd) (enumerate 1 ?W)"
      by (rule map_cong) (auto simp add: weekRow_totals)
    also have "\<dots> = map (\<lambda>(ws, we). \<Sum>d\<leftarrow>[ws..we - 1]. fst (dayTotals ?m d)) ?W"
      by (simp add: map_map [symmetric] del: map_map)
    finally show ?thesis by (simp add: comp_def)
  qed
  then have total: "(\<Sum>row\<leftarrow>buildWeeklyBreakdown daily start endExclusive. week_requests row)
      = (\<Sum>d\<leftarrow>[a..b - 1]. fst (dayTotals ?m d))"
    by (simp only: rows sum_over_windows)
  from weekWindows_cover [of a b] weekWindows_lengths [of a b] rows total show ?thesis
    by (simp add: weekRow_totals)
qed

theorem buildWeeklyBreakdown_partition_witness:
  "weekWindows 20485 20513
     = [(20485, 20492), (20492, 20499), (20499, 20506), (20506, 20513)]
   \<and> map week_requests
       (buildWeeklyBreakdown
          [\<lparr> date = ''2026-02-03'', requests = 5, uniques = 2, bytes = 100 \<rparr>,
           \<lparr> date = ''2026-02-28'', requests = 7, uniques = 3, bytes = 10 \<rparr>,
           \<lparr> date = ''2026-03-01'', requests = 9, uniques = 1, bytes = 10 \<rparr>]
          ''2026-02-01'' ''2026-03-01'')
     = [5, 0, 0, 7]
   \<and> concat (map (\<lambda>(ws, we). [ws..we - 1]) (weekWindows 20485 20513)) = [20485..20512]"
proof -
  have a: "newDate (''2026-02-01'' @ ''T00:00:00Z'') = Some 20485" by code_simp
  have b: "newDate (''2026-03-01'' @ ''T00:00:00Z'') = Some 20513" by code_simp
  have w: "weekWindows 20485 20513
      = [(20485, 20492), (20492, 20499), (20499, 20506), (20506, 20513)]"
    by code_simp
  have r: "map week_requests
       (buildWeeklyBreakdown
          [\<lparr> date = ''2026-02-03'', requests = 5, uniques = 2, bytes = 100 \<rparr>,
           \<lparr> date = ''2026-02-28'', requests = 7, uniques = 3, bytes = 10 \<rparr>,
           \<lparr> date = ''2026-03-01'', requests = 9, uniques = 1, bytes = 10 \<rparr>]
          ''2026-02-01'' ''2026-03-01'')
     = [5, 0, 0, 7]"
    by code_simp
  from buildWeeklyBreakdown_partition [OF a b] w r show ?thesis
    by simp
qed

text \<open>
  C5. The claim fails at the override \<^verbatim>\<open>0099-12\<close>: \<^verbatim>\<open>Date.UTC\<close> reads the year 99 as 1999,
  so the period of \<^verbatim>\<open>0099-12\<close> is December 1999 and ends on \<^verbatim>\<open>2000-01-01\<close>, while the
  period of the following override \<^verbatim>\<open>0100-01\<close> starts on \<^verbatim>\<open>0100-01-01\<close>.
\<close>

theorem buildMonthPeriod_year_below_100:
  "map_sum id endDateExclusive (buildMonthPeriod 20759 (Some ''0099-12'')) = Inr ''2000-01-01''
   \<and> map_sum id startDate (buildMonthPeriod 20759 (Some ''0100-01'')) = Inr ''0100-01-01''
   \<and> map_sum id monthKey (buildMonthPeriod 20759 (Some ''0099-12'')) = Inr ''1999-12''"
  by code_simp

text \<open>
  C7, as amended. For every override that is not the empty string, \<open>buildMonthPeriod\<close>
  fails if and only if the override does not have the form \<^verbatim>\<open>YYYY-MM\<close> or its month is
  outside 01-12; and for every override of the form with a month in 01-12 and a year
  from 0100 on, it returns a period whose \<open>monthKey\<close> is the override.
\<close>

theorem buildMonthPeriod_override:
  assumes "s \<noteq> []"
  shows "(isl (buildMonthPeriod now (Some s))
            \<longleftrightarrow> \<not> formatYYYYMM s \<or> monthComponent s < 1 \<or> 12 < monthComponent s)
    \<and> (formatYYYYMM s \<and> 1 \<le> monthComponent s \<and> monthComponent s \<le> 12
          \<and> 100 \<le> yearComponent s
        \<longrightarrow> map_sum id monthKey (buildMonthPeriod now (Some s)) = Inr s)"
  using assms monthKey_override [of s]
  by (auto simp add: buildMonthPeriod_def parseMonthOverride_cases)

theorem buildMonthPeriod_override_witness:
  "isl (buildMonthPeriod 20759 (Some ''2026-13''))
   \<and> isl (buildMonthPeriod 20759 (Some ''2026-1''))
   \<and> map_sum id monthKey (buildMonthPeriod 20759 (Some ''2026-01'')) = Inr ''2026-01''"
  using buildMonthPeriod_override [of "''2026-13''" 20759]
    buildMonthPeriod_override [of "''2026-1''" 20759]
    buildMonthPeriod_override [of "''2026-01''" 20759]
  by (simp add: formatYYYYMM_def monthComponent_def yearComponent_def Number_def
      digitValue_def isDigit_def)

text \<open>
  The claim as stated fails at the empty override, which does not have the form and
  for which \<open>buildMonthPeriod\<close> returns the period of the month before \<open>now\<close>; and at
  \<^verbatim>\<open>0050-03\<close>, which has the form and a month in range and for which the \<open>monthKey\<close>
  returned is \<^verbatim>\<open>1950-03\<close>.
\<close>

theorem buildMonthPeriod_override_counterexample:
  "\<not> formatYYYYMM []
   \<and> map_sum id monthKey (buildMonthPeriod 20759 (Some [])) = Inr ''2026-10''
   \<and> formatYYYYMM ''0050-03'' \<and> monthComponent ''0050-03'' = 3
   \<and> map_sum id monthKey (buildMonthPeriod 20759 (Some ''0050-03'')) = Inr ''1950-03''"
  by code_simp

section \<open>The claims about metrics and scores\<close>

subsection \<open>The error of a rounding\<close>

lemma bitLength_pos: "0 < n \<Longrightarrow> 0 < bitLength n"
  by (subst bitLength.simps) simp

lemma bitLength_bounds:
  "0 < n \<Longrightarrow> 2 ^ (bitLength n - 1) \<le> n \<and> n < 2 ^ bitLength n"
proof (induction n rule: bitLength.induct)
  case (1 n)
  show ?case
  proof (cases "n = 1")
    case True
    have "bitLength 1 = 1"
      by (subst bitLength.simps, subst bitLength.simps) simp
    with True show ?thesis by simp
  next
    case False
    with 1(2) have half: "0 < n div 2" by simp
    with 1 have IH: "2 ^ (bitLength (n div 2) - 1) \<le> n div 2" "n div 2 < 2 ^ bitLength (n div 2)"
      by simp_all
    have len: "bitLength n = Suc (bitLength (n div 2))"
      using 1(2) by (subst bitLength.simps) simp
    obtain k where k: "bitLength (n div 2) = Suc k"
      using bitLength_pos [OF half] by (cases "bitLength (n div 2)") simp_all
    from IH k have "2 * 2 ^ k \<le> 2 * (n div 2)" "2 * (n div 2) + 1 < 2 * 2 ^ Suc k"
      by simp_all
    moreover have "2 * (n div 2) \<le> n" "n \<le> 2 * (n div 2) + 1"
      by simp_all
    ultimately show ?thesis
      by (simp add: len k)
  qed
qed

lemma ilog2_bounds:
  assumes "x \<noteq> 0"
  shows "2 powi (ilog2 x) \<le> \<bar>x\<bar> \<and> \<bar>x\<bar> < 2 powi (ilog2 x + 1)"
proof -
  obtain n d where q: "quotient_of \<bar>x\<bar> = (n, d)"
    by (cases "quotient_of \<bar>x\<bar>")
  then have d: "0 < d" and x: "\<bar>x\<bar> = of_int n / of_int d"
    by (simp_all add: quotient_of_denom_pos quotient_of_div)
  from assms have "0 < \<bar>x\<bar>"
    by simp
  with x d have n: "0 < n"
    by (simp add: zero_less_divide_iff)
  let ?k = "int (bitLength n) - int (bitLength d)"
  from bitLength_bounds [OF n] bitLength_bounds [OF d]
  have nb: "(2::rat) ^ (bitLength n - 1) \<le> of_int n" "(of_int n :: rat) < 2 ^ bitLength n"
    and db: "(2::rat) ^ (bitLength d - 1) \<le> of_int d" "(of_int d :: rat) < 2 ^ bitLength d"
    by (metis of_int_le_iff of_int_numeral of_int_power, metis of_int_less_iff of_int_numeral of_int_power,
        metis of_int_le_iff of_int_numeral of_int_power, metis of_int_less_iff of_int_numeral of_int_power)
  have pw: "(2::rat) powi (int a - int b) = 2 ^ a / 2 ^ b" for a b
    by (simp add: power_int_diff)
  have "?k + 1 = int (bitLength n) - int (bitLength d - 1)"
    using bitLength_pos [OF d] by simp
  then have "(2::rat) powi (?k + 1) = 2 ^ bitLength n / 2 ^ (bitLength d - 1)"
    using pw [of "bitLength n" "bitLength d - 1"] by (simp only:)
  moreover have "of_int n / of_int d < (2::rat) ^ bitLength n / 2 ^ (bitLength d - 1)"
    using n nb db by (intro frac_less) simp_all
  ultimately have upper: "\<bar>x\<bar> < 2 powi (?k + 1)"
    by (simp only: x)
  have "?k - 1 = int (bitLength n - 1) - int (bitLength d)"
    using bitLength_pos [OF n] by simp
  then have "(2::rat) powi (?k - 1) = 2 ^ (bitLength n - 1) / 2 ^ bitLength d"
    using pw [of "bitLength n - 1" "bitLength d"] by (simp only:)
  moreover have "(2::rat) ^ (bitLength n - 1) / 2 ^ bitLength d \<le> of_int n / of_int d"
    using d n nb db by (intro frac_le) simp_all
  ultimately have lower: "2 powi (?k - 1) \<le> \<bar>x\<bar>"
    by (simp only: x)
  show ?thesis
    using upper lower by (auto simp add: ilog2_def q Let_def not_le)
qed

lemma roundHalfEven_error: "\<bar>of_int (roundHalfEven y) - y\<bar> \<le> 1 / 2"
proof -
  have "of_int \<lfloor>y\<rfloor> \<le> y" and "y < of_int \<lfloor>y\<rfloor> + 1"
    by linarith+
  then show ?thesis
    by (auto simp add: roundHalfEven_def Let_def abs_le_iff)
qed

lemma roundDouble_error:
  assumes "x \<noteq> 0"
  shows "\<bar>roundDouble x - x\<bar> \<le> 2 powi (max (ilog2 x - 52) (- 1074)) / 2"
proof -
  let ?e = "max (ilog2 x - 52) (- 1074)"
  let ?s = "(2::rat) powi ?e"
  have s: "0 < ?s"
    by (simp add: power_int_def)
  have "roundDouble x - x = (of_int (roundHalfEven (x / ?s)) - x / ?s) * ?s"
    using assms s by (simp add: roundDouble_def Let_def algebra_simps)
  then have "\<bar>roundDouble x - x\<bar> = \<bar>of_int (roundHalfEven (x / ?s)) - x / ?s\<bar> * ?s"
    using s by (simp add: abs_mult)
  also have "\<dots> \<le> 1 / 2 * ?s"
    using roundHalfEven_error [of "x / ?s"] s by (intro mult_right_mono) simp_all
  finally show ?thesis
    by simp
qed

lemma ilog2_greatest:
  assumes "x \<noteq> 0" and "2 powi k \<le> \<bar>x\<bar>"
  shows "k \<le> ilog2 x"
proof (rule ccontr)
  assume "\<not> k \<le> ilog2 x"
  then have "ilog2 x + 1 \<le> k"
    by simp
  then have "(2::rat) powi (ilog2 x + 1) \<le> 2 powi k"
    by (intro power_int_increasing) simp_all
  with assms(2) ilog2_bounds [OF assms(1)] show False
    by simp
qed

lemma ilog2_less:
  assumes "x \<noteq> 0" and "\<bar>x\<bar> < 2 powi k"
  shows "ilog2 x < k"
proof (rule ccontr)
  assume "\<not> ilog2 x < k"
  then have "(2::rat) powi k \<le> 2 powi (ilog2 x)"
    by (intro power_int_increasing) simp_all
  with assms(2) ilog2_bounds [OF assms(1)] show False
    by simp
qed

text \<open>In the normal range a rounding moves a value by at most 1 part in \<open>2^53\<close>.\<close>

lemma roundDouble_relative:
  assumes "2 powi (- 1022) \<le> \<bar>x\<bar>"
  shows "\<bar>roundDouble x - x\<bar> \<le> \<bar>x\<bar> / 2 ^ 53"
proof -
  have "(0::rat) < 2 powi (- 1022)"
    by (simp add: power_int_def)
  with assms have x: "x \<noteq> 0"
    by auto
  from ilog2_greatest [OF x assms] have "max (ilog2 x - 52) (- 1074) = ilog2 x - 52"
    by simp
  with roundDouble_error [OF x] have "\<bar>roundDouble x - x\<bar> \<le> 2 powi (ilog2 x - 52) / 2"
    by simp
  also have "(2::rat) powi (ilog2 x - 52) / 2 = 2 powi (ilog2 x) / 2 ^ 53"
    by (simp add: power_int_diff)
  also have "\<dots> \<le> \<bar>x\<bar> / 2 ^ 53"
    using ilog2_bounds [OF x] by (intro divide_right_mono) simp_all
  finally show ?thesis .
qed

lemma roundDouble_near:
  assumes "\<bar>x\<bar> \<le> 128"
  shows "\<bar>roundDouble x - x\<bar> \<le> 1 / 2 ^ 46"
proof (cases "x = 0")
  case True
  then show ?thesis by (simp add: roundDouble_def)
next
  case False
  from assms have "\<bar>x\<bar> < 2 powi 8"
    by simp
  from ilog2_less [OF False this] have "max (ilog2 x - 52) (- 1074) \<le> - 45"
    by simp
  then have "(2::rat) powi (max (ilog2 x - 52) (- 1074)) \<le> 2 powi (- 45)"
    by (intro power_int_increasing) simp_all
  with roundDouble_error [OF False] have "\<bar>roundDouble x - x\<bar> \<le> 2 powi (- 45) / 2"
    by simp
  also have "(2::rat) powi (- 45) / 2 = 1 / 2 ^ 46"
    by (simp add: power_int_minus_divide)
  finally show ?thesis .
qed

lemma fromReal_finite:
  assumes "\<bar>roundDouble x\<bar> < 2 powi 1024"
  shows "fromReal x = Finite (roundDouble x)"
proof (cases "roundDouble x = 0")
  case True
  then show ?thesis by (simp add: fromReal_def)
next
  case False
  from ilog2_less [OF False assms] show ?thesis
    by (simp add: fromReal_def)
qed

lemma roundDouble_factor:
  assumes "2 powi (- 1022) \<le> \<bar>x\<bar>"
  shows "\<exists>\<delta>. roundDouble x = x * (1 + \<delta>) \<and> \<bar>\<delta>\<bar> \<le> 1 / 2 ^ 53"
proof -
  have "(0::rat) < 2 powi (- 1022)"
    by (simp add: power_int_def)
  with assms have x: "x \<noteq> 0"
    by auto
  let ?\<delta> = "(roundDouble x - x) / x"
  have "roundDouble x = x * (1 + ?\<delta>)"
    using x by (simp add: field_simps)
  moreover have "\<bar>?\<delta>\<bar> = \<bar>roundDouble x - x\<bar> / \<bar>x\<bar>"
    by (simp add: abs_divide)
  then have "\<bar>?\<delta>\<bar> \<le> 1 / 2 ^ 53"
    using roundDouble_relative [OF assms] x by (simp add: field_simps)
  ultimately show ?thesis
    by blast
qed

lemma factor_bounds:
  fixes x \<delta> :: rat
  assumes "\<bar>\<delta>\<bar> \<le> 1 / 2 ^ 53"
  shows "\<bar>x\<bar> / 2 \<le> \<bar>x * (1 + \<delta>)\<bar>" and "\<bar>x * (1 + \<delta>)\<bar> \<le> 2 * \<bar>x\<bar>"
proof -
  have "(1::rat) / 2 ^ 53 \<le> 1 / 2"
    by simp
  with assms have "\<bar>\<delta>\<bar> \<le> 1 / 2"
    by (rule order_trans)
  then have "1 / 2 \<le> \<bar>1 + \<delta>\<bar>" and "\<bar>1 + \<delta>\<bar> \<le> 2"
    by linarith+
  then have "\<bar>x\<bar> * (1 / 2) \<le> \<bar>x\<bar> * \<bar>1 + \<delta>\<bar>" and "\<bar>x\<bar> * \<bar>1 + \<delta>\<bar> \<le> \<bar>x\<bar> * 2"
    by (intro mult_left_mono; simp)+
  then show "\<bar>x\<bar> / 2 \<le> \<bar>x * (1 + \<delta>)\<bar>" and "\<bar>x * (1 + \<delta>)\<bar> \<le> 2 * \<bar>x\<bar>"
    by (simp_all add: abs_mult)
qed

lemma three_roundings:
  fixes a b c u :: rat
  assumes "\<bar>a\<bar> \<le> u" and "\<bar>b\<bar> \<le> u" and "\<bar>c\<bar> \<le> u" and "u \<le> 1 / 4"
  shows "\<bar>(1 + a) * (1 + b) * (1 + c) - 1\<bar> \<le> 4 * u"
proof -
  have u: "0 \<le> u"
    using assms(1) by simp
  have uu: "u * u \<le> u / 4"
    using mult_left_mono [OF assms(4) u] by simp
  have ab: "\<bar>a * b\<bar> \<le> u * u" and ac: "\<bar>a * c\<bar> \<le> u * u" and bc: "\<bar>b * c\<bar> \<le> u * u"
    using assms(1-3) by (simp_all add: abs_mult mult_mono)
  have "\<bar>a * b * c\<bar> = \<bar>a * b\<bar> * \<bar>c\<bar>"
    by (simp add: abs_mult)
  also have "\<dots> \<le> (u * u) * u"
    using ab assms(3) by (intro mult_mono) (simp_all add: u)
  also have "\<dots> \<le> (u / 4) * u"
    using uu u by (intro mult_right_mono)
  also have "\<dots> \<le> u / 4"
    using u assms(4) mult_left_mono [of u 1 "u / 4"] by simp
  finally have abc: "\<bar>a * b * c\<bar> \<le> u / 4" .
  have first: "\<bar>a + b + c\<bar> \<le> 3 * u"
    using assms(1-3) by linarith
  have second: "\<bar>a * b + a * c + b * c\<bar> \<le> 3 * (u * u)"
    using ab ac bc by linarith
  have "(1 + a) * (1 + b) * (1 + c) - 1 = (a + b + c) + (a * b + a * c + b * c) + a * b * c"
    by (simp add: algebra_simps)
  with first second abc uu show ?thesis
    by linarith
qed

lemma rounded_operation:
  assumes "2 powi (- 1022) \<le> \<bar>x\<bar>" and "\<bar>x\<bar> \<le> 2 ^ 64"
  shows "\<exists>\<delta>. \<bar>\<delta>\<bar> \<le> 1 / 2 ^ 53 \<and> roundDouble x = x * (1 + \<delta>)
    \<and> fromReal x = Finite (roundDouble x)"
proof -
  from roundDouble_factor [OF assms(1)] obtain \<delta>
    where \<delta>: "roundDouble x = x * (1 + \<delta>)" "\<bar>\<delta>\<bar> \<le> 1 / 2 ^ 53"
    by blast
  from factor_bounds(2) [OF \<delta>(2), of x] assms(2) have "\<bar>roundDouble x\<bar> \<le> 2 powi 65"
    by (simp add: \<delta>(1))
  also have "(2::rat) powi 65 < 2 powi 1024"
    by (intro power_int_strict_increasing) simp_all
  finally have "fromReal x = Finite (roundDouble x)"
    by (rule fromReal_finite)
  with \<delta> show ?thesis
    by blast
qed

lemma fromReal_zero: "fromReal 0 = Finite 0"
  by (simp add: fromReal_def roundDouble_def)

lemma tiny_bound: "(2::rat) powi (- 1022) \<le> 1 / 2 ^ 60"
proof -
  have "(2::rat) powi (- 1022) \<le> 2 powi (- 60)"
    by (intro power_int_increasing) simp_all
  also have "(2::rat) powi (- 60) = 1 / 2 ^ 60"
    by (simp add: power_int_minus_divide)
  finally show ?thesis .
qed

lemma rounded_in_range:
  assumes "1 / 2 ^ 60 \<le> \<bar>x\<bar>" and "\<bar>x\<bar> \<le> 2 ^ 64"
  shows "\<exists>\<delta>. \<bar>\<delta>\<bar> \<le> 1 / 2 ^ 53 \<and> roundDouble x = x * (1 + \<delta>)
    \<and> fromReal x = Finite (roundDouble x)"
proof -
  from tiny_bound assms(1) have "2 powi (- 1022) \<le> \<bar>x\<bar>"
    by (rule order_trans)
  then show ?thesis
    using assms(2) by (rule rounded_operation)
qed

lemma withDelta_chain:
  fixes c p :: int
  assumes "p \<noteq> 0" and "\<bar>c\<bar> \<le> 2 ^ 53" and "\<bar>p\<bar> \<le> 2 ^ 53"
  shows "\<exists>\<delta>1 \<delta>2 \<delta>3. \<bar>\<delta>1\<bar> \<le> 1 / 2 ^ 53 \<and> \<bar>\<delta>2\<bar> \<le> 1 / 2 ^ 53 \<and> \<bar>\<delta>3\<bar> \<le> 1 / 2 ^ 53
    \<and> deltaPercent (withDelta (of_int c) (of_int p))
        = Some (Finite (roundDouble (roundDouble (roundDouble (of_int c - of_int p) / of_int p) * 100)))
    \<and> roundDouble (roundDouble (roundDouble (of_int c - of_int p) / of_int p) * 100)
        = (of_int c - of_int p) / of_int p * 100 * ((1 + \<delta>1) * (1 + \<delta>2) * (1 + \<delta>3))"
proof (cases "c = p")
  case True
  have "roundDouble 0 = 0"
    by (simp add: roundDouble_def)
  with True assms(1) have "deltaPercent (withDelta (of_int c) (of_int p)) = Some (Finite 0)"
    and "roundDouble (roundDouble (roundDouble (of_int c - of_int p) / of_int p) * 100) = 0"
    by (simp_all add: withDelta_def fromReal_zero)
  with True show ?thesis
    by (intro exI [of _ 0]) simp
next
  case False
  let ?D = "of_int c - of_int p :: rat" and ?p = "of_int p :: rat"
  have p: "1 \<le> \<bar>?p\<bar>" "\<bar>?p\<bar> \<le> 2 ^ 53"
  proof -
    from assms(1) have "1 \<le> \<bar>p\<bar>" by simp
    then have "(of_int 1 :: rat) \<le> of_int \<bar>p\<bar>" by (simp only: of_int_le_iff)
    then show "1 \<le> \<bar>?p\<bar>" by simp
    from assms(3) have "(of_int \<bar>p\<bar> :: rat) \<le> of_int (2 ^ 53)" by (simp only: of_int_le_iff)
    then show "\<bar>?p\<bar> \<le> 2 ^ 53" by simp
  qed
  have D: "1 \<le> \<bar>?D\<bar>" "\<bar>?D\<bar> \<le> 2 ^ 54"
  proof -
    from False have "1 \<le> \<bar>c - p\<bar>" by simp
    then have "(of_int 1 :: rat) \<le> of_int \<bar>c - p\<bar>" by (simp only: of_int_le_iff)
    then show "1 \<le> \<bar>?D\<bar>" by simp
    have "\<bar>c - p\<bar> \<le> \<bar>c\<bar> + \<bar>p\<bar>" by simp
    with assms(2,3) have "\<bar>c - p\<bar> \<le> 2 ^ 54" by simp
    then have "(of_int \<bar>c - p\<bar> :: rat) \<le> of_int (2 ^ 54)" by (simp only: of_int_le_iff)
    then show "\<bar>?D\<bar> \<le> 2 ^ 54" by simp
  qed
  define D where "D = (of_int c - of_int p :: rat)"
  define d where "d = roundDouble D"
  define q where "q = roundDouble (d / ?p)"
  define r where "r = roundDouble (q * 100)"
  define P where "P = \<bar>?p\<bar>"
  from D have D': "1 \<le> \<bar>D\<bar>" "\<bar>D\<bar> \<le> 2 ^ 54"
    by (simp_all add: D_def)
  then have "1 / 2 ^ 60 \<le> \<bar>D\<bar>" and "\<bar>D\<bar> \<le> 2 ^ 64"
    by simp_all
  from rounded_in_range [OF this] obtain \<delta>1
    where d1: "\<bar>\<delta>1\<bar> \<le> 1 / 2 ^ 53" "d = D * (1 + \<delta>1)" "fromReal D = Finite d"
    unfolding d_def by blast
  from factor_bounds [OF d1(1), of D] D' have d: "1 / 2 \<le> \<bar>d\<bar>" "\<bar>d\<bar> \<le> 2 ^ 55"
    unfolding d1(2) [symmetric] by simp_all
  from p have P: "1 \<le> P" "P \<le> 2 ^ 53"
    by (simp_all add: P_def)
  have "1 / 2 / 2 ^ 53 \<le> \<bar>d\<bar> / P"
    using d(1) P by (intro frac_le) simp_all
  moreover have "\<bar>d\<bar> / P \<le> 2 ^ 55 / 1"
    using d(2) P by (intro frac_le) simp_all
  moreover define q0 where "q0 = d / ?p"
  then have "\<bar>q0\<bar> = \<bar>d\<bar> / P"
    by (simp add: abs_divide P_def)
  ultimately have q0': "1 / 2 ^ 54 \<le> \<bar>q0\<bar>" "\<bar>q0\<bar> \<le> 2 ^ 55"
    by simp_all
  then have "1 / 2 ^ 60 \<le> \<bar>q0\<bar>" and "\<bar>q0\<bar> \<le> 2 ^ 64"
    by simp_all
  from rounded_in_range [OF this] obtain \<delta>2
    where d2: "\<bar>\<delta>2\<bar> \<le> 1 / 2 ^ 53" "q = q0 * (1 + \<delta>2)" "fromReal q0 = Finite q"
    unfolding q_def q0_def by blast
  from factor_bounds [OF d2(1), of q0] q0' have q: "1 / 2 ^ 55 \<le> \<bar>q\<bar>" "\<bar>q\<bar> \<le> 2 ^ 56"
    unfolding d2(2) [symmetric] by simp_all
  define r0 where "r0 = q * 100"
  have "\<bar>r0\<bar> = \<bar>q\<bar> * 100"
    by (simp add: abs_mult r0_def)
  with q have "1 / 2 ^ 60 \<le> \<bar>r0\<bar>" and "\<bar>r0\<bar> \<le> 2 ^ 64"
    by simp_all
  from rounded_in_range [OF this] obtain \<delta>3
    where d3: "\<bar>\<delta>3\<bar> \<le> 1 / 2 ^ 53" "r = r0 * (1 + \<delta>3)" "fromReal r0 = Finite r"
    unfolding r_def r0_def by blast
  have "deltaPercent (withDelta (of_int c) (of_int p)) = Some (Finite r)"
    using assms(1) d1(3) d2(3) d3(3)
    by (simp add: withDelta_def D_def [symmetric] q0_def [symmetric] r0_def [symmetric])
  moreover have "r = D / ?p * 100 * ((1 + \<delta>1) * (1 + \<delta>2) * (1 + \<delta>3))"
    by (simp add: d3(2) r0_def d2(2) q0_def d1(2))
  ultimately show ?thesis
    using d1(1) d2(1) d3(1) unfolding r_def q_def d_def D_def by blast
qed

subsection \<open>\<^verbatim>\<open>withDelta\<close>\<close>

text \<open>
  C3, as amended. \<open>withDelta\<close> returns the two values unchanged; \<open>deltaPercent\<close> is 0
  when both are zero and null exactly when \<open>p = 0\<close> and \<open>c \<noteq> 0\<close>. Otherwise, for
  integers \<open>c\<close> and \<open>p\<close> of magnitude at most \<open>2^53\<close>, it is a finite double: what
  \<^verbatim>\<open>((c - p) / p) * 100\<close> gives when the difference, the quotient and the product are
  each rounded to the nearest double. It differs from the exact value of
  \<open>(c - p) / p * 100\<close> by at most the \<open>2^51\<close>-th part of that value. The three examples of
  the specification come out exactly.
\<close>

theorem withDelta_rounded:
  fixes c p :: int
  shows "current (withDelta (of_int c) (of_int p)) = of_int c
    \<and> previous (withDelta (of_int c) (of_int p)) = of_int p
    \<and> (c = 0 \<and> p = 0 \<longrightarrow> deltaPercent (withDelta (of_int c) (of_int p)) = Some (Finite 0))
    \<and> (deltaPercent (withDelta (of_int c) (of_int p)) = None \<longleftrightarrow> p = 0 \<and> c \<noteq> 0)
    \<and> (p \<noteq> 0 \<and> \<bar>c\<bar> \<le> 2 ^ 53 \<and> \<bar>p\<bar> \<le> 2 ^ 53 \<longrightarrow>
         (\<exists>r. deltaPercent (withDelta (of_int c) (of_int p)) = Some (Finite r)
            \<and> r = roundDouble (roundDouble (roundDouble (of_int c - of_int p) / of_int p) * 100)
            \<and> \<bar>r - (of_int c - of_int p) / of_int p * 100\<bar>
                \<le> \<bar>(of_int c - of_int p) / of_int p * 100\<bar> / 2 ^ 51))
    \<and> withDelta 0 0 = \<lparr> current = 0, previous = 0, deltaPercent = Some (Finite 0) \<rparr>
    \<and> deltaPercent (withDelta 5 0) = None
    \<and> deltaPercent (withDelta 150 100) = Some (Finite 50)"
proof -
  have rounded: "\<exists>r. deltaPercent (withDelta (of_int c) (of_int p)) = Some (Finite r)
      \<and> r = roundDouble (roundDouble (roundDouble (of_int c - of_int p) / of_int p) * 100)
      \<and> \<bar>r - (of_int c - of_int p) / of_int p * 100\<bar>
          \<le> \<bar>(of_int c - of_int p) / of_int p * 100\<bar> / 2 ^ 51"
    if "p \<noteq> 0" and "\<bar>c\<bar> \<le> 2 ^ 53" and "\<bar>p\<bar> \<le> 2 ^ 53"
  proof -
    define exact where "exact = (of_int c - of_int p) / of_int p * (100::rat)"
    from withDelta_chain [OF that] obtain \<delta>1 \<delta>2 \<delta>3 r
      where small: "\<bar>\<delta>1\<bar> \<le> 1 / 2 ^ 53" "\<bar>\<delta>2\<bar> \<le> 1 / 2 ^ 53" "\<bar>\<delta>3\<bar> \<le> 1 / 2 ^ 53"
        and r: "r = roundDouble (roundDouble (roundDouble (of_int c - of_int p) / of_int p) * 100)"
        and result: "deltaPercent (withDelta (of_int c) (of_int p)) = Some (Finite r)"
        and factors: "r = exact * ((1 + \<delta>1) * (1 + \<delta>2) * (1 + \<delta>3))"
      unfolding exact_def by blast
    have "(1::rat) / 2 ^ 53 \<le> 1 / 4"
      by simp
    from three_roundings [OF small this]
    have "\<bar>(1 + \<delta>1) * (1 + \<delta>2) * (1 + \<delta>3) - 1\<bar> \<le> 1 / 2 ^ 51"
      by simp
    then have "\<bar>exact\<bar> * \<bar>(1 + \<delta>1) * (1 + \<delta>2) * (1 + \<delta>3) - 1\<bar> \<le> \<bar>exact\<bar> * (1 / 2 ^ 51)"
      by (intro mult_left_mono) simp_all
    moreover have "r - exact = exact * ((1 + \<delta>1) * (1 + \<delta>2) * (1 + \<delta>3) - 1)"
      by (simp add: factors algebra_simps)
    ultimately have "\<bar>r - exact\<bar> \<le> \<bar>exact\<bar> / 2 ^ 51"
      by (simp add: abs_mult)
    with r result show ?thesis
      unfolding exact_def by blast
  qed
  have examples: "withDelta 0 0 = \<lparr> current = 0, previous = 0, deltaPercent = Some (Finite 0) \<rparr>"
    "deltaPercent (withDelta 5 0) = None" "deltaPercent (withDelta 150 100) = Some (Finite 50)"
    by code_simp+
  have fields: "current (withDelta (of_int c) (of_int p)) = of_int c"
    "previous (withDelta (of_int c) (of_int p)) = of_int p"
    "c = 0 \<and> p = 0 \<longrightarrow> deltaPercent (withDelta (of_int c) (of_int p)) = Some (Finite 0)"
    "deltaPercent (withDelta (of_int c) (of_int p)) = None \<longleftrightarrow> p = 0 \<and> c \<noteq> 0"
    by (simp_all add: withDelta_def)
  from fields rounded examples show ?thesis
    by (intro conjI impI) blast+
qed

theorem withDelta_rounded_witness:
  "(\<exists>r. deltaPercent (withDelta 107 100) = Some (Finite r) \<and> \<bar>r - 7\<bar> \<le> 7 / 2 ^ 51)
   \<and> deltaPercent (withDelta 10000 8000) = Some (Finite 25)
   \<and> deltaPercent (withDelta 7 0) = None"
proof -
  have "(107::int) \<noteq> 0 \<and> \<bar>107::int\<bar> \<le> 2 ^ 53 \<and> \<bar>100::int\<bar> \<le> 2 ^ 53"
    and "(100::int) \<noteq> 0"
    by simp_all
  with withDelta_rounded [of 107 100]
  obtain r where "deltaPercent (withDelta (of_int 107) (of_int 100)) = Some (Finite r)"
    and "\<bar>r - (of_int 107 - of_int 100) / of_int 100 * 100\<bar>
      \<le> \<bar>(of_int 107 - of_int 100) / of_int 100 * 100 :: rat\<bar> / 2 ^ 51"
    by blast
  then have "\<exists>r. deltaPercent (withDelta 107 100) = Some (Finite r) \<and> \<bar>r - 7\<bar> \<le> 7 / 2 ^ 51"
    by (intro exI [of _ r]) simp
  moreover have "deltaPercent (withDelta 10000 8000) = Some (Finite 25)"
    by code_simp
  moreover from withDelta_rounded [of 7 0] have "deltaPercent (withDelta 7 0) = None"
    by simp
  ultimately show ?thesis
    by (intro conjI)
qed

text \<open>
  The claim as stated fails: for 107 and 100 the exact value of \<open>(c - p) / p * 100\<close> is
  7, and \<open>deltaPercent\<close> is the next double above, \<^verbatim>\<open>7.000000000000001\<close>; for 1 and 3 the
  exact value is \<open>- 200 / 3\<close>, which no double holds.
\<close>

theorem withDelta_not_exact:
  "deltaPercent (withDelta 107 100) = Some (Finite (7 + 1 / 2 ^ 50))
   \<and> ((107 - 100) / 100 * 100 :: rat) = 7
   \<and> deltaPercent (withDelta 1 3) = Some (Finite (- 2345624805922133 / 2 ^ 45))
   \<and> ((1 - 3) / 3 * 100 :: rat) \<noteq> - 2345624805922133 / 2 ^ 45"
  by code_simp

subsection \<open>\<^verbatim>\<open>normalizeScore\<close>\<close>

lemma Math_round_nearest:
  "of_int (Math_round y) - 1 / 2 \<le> y \<and> y < of_int (Math_round y) + 1 / 2"
  unfolding Math_round_def by linarith

lemma product_near:
  assumes "0 \<le> x" and "x \<le> 1"
  shows "\<bar>roundDouble (x * 100) - x * 100\<bar> \<le> 1 / 2 ^ 46"
    and "\<bar>roundDouble (x * 100) - x * 100\<bar> \<le> 1 / 4"
proof -
  from assms have "\<bar>x * 100\<bar> \<le> 128"
    by simp
  then show "\<bar>roundDouble (x * 100) - x * 100\<bar> \<le> 1 / 2 ^ 46"
    by (rule roundDouble_near)
  moreover have "(1::rat) / 2 ^ 46 \<le> 1 / 4"
    by simp
  ultimately show "\<bar>roundDouble (x * 100) - x * 100\<bar> \<le> 1 / 4"
    by (rule order_trans)
qed

text \<open>On the unit interval the product with 100 does not overflow.\<close>

lemma fmul_unit_interval:
  assumes "0 \<le> x" and "x \<le> 1"
  shows "fmul (Finite x) (Finite 100) = Finite (roundDouble (x * 100))"
proof -
  from product_near(2) [OF assms] assms have "\<bar>roundDouble (x * 100)\<bar> \<le> 128"
    by linarith
  then have "\<bar>roundDouble (x * 100)\<bar> \<le> 2 powi 7"
    by simp
  also have "(2::rat) powi 7 < 2 powi 1024"
    by (intro power_int_strict_increasing) simp_all
  finally show ?thesis
    by (simp add: fromReal_finite)
qed

lemma unit_score:
  assumes "0 \<le> x" and "x \<le> 1"
  shows "0 \<le> Math_round (roundDouble (x * 100))" and "Math_round (roundDouble (x * 100)) \<le> 100"
proof -
  let ?n = "Math_round (roundDouble (x * 100))"
  from Math_round_nearest [of "roundDouble (x * 100)"] product_near(2) [OF assms] assms
  have "- 1 < (of_int ?n :: rat) \<and> (of_int ?n :: rat) < 101"
    by linarith
  then show "0 \<le> ?n" and "?n \<le> 100"
    by simp_all
qed

lemma percent_score:
  assumes "1 < x" and "x \<le> 100"
  shows "0 \<le> Math_round x" and "Math_round x \<le> 100"
proof -
  from Math_round_nearest [of x] assms
  have "- 1 < (of_int (Math_round x) :: rat) \<and> (of_int (Math_round x) :: rat) < 101"
    by linarith
  then show "0 \<le> Math_round x" and "Math_round x \<le> 100"
    by simp_all
qed

text \<open>
  C10, as amended. \<open>normalizeScore\<close> returns null or an integer between 0 and 100. A
  value that is not a number, NaN and the two infinities give null. A number \<open>x\<close> in
  \<open>[0, 1]\<close> gives \<^verbatim>\<open>Math.round\<close> of the double product \<^verbatim>\<open>x * 100\<close>: the integer \<open>n\<close> with
  \<open>n - 1/2 \<le> y < n + 1/2\<close> for the product \<open>y\<close> rounded to the nearest double, which
  is the rounding of the exact product unless that lies within \<open>2^(- 46)\<close> of a tie;
  the raw score 1 is read on this scale and gives 100. A number in \<open>(1, 100]\<close> gives the
  integer closest to it, a tie going upwards; a negative number and a number above
  100 give null.
\<close>

theorem normalizeScore_rounded:
  "(\<forall>n. normalizeScore v = Some n \<longrightarrow> 0 \<le> n \<and> n \<le> 100)
   \<and> normalizeScore JNotNumber = None
   \<and> normalizeScore JNaN = None
   \<and> normalizeScore JPosInfinity = None
   \<and> normalizeScore JNegInfinity = None
   \<and> (0 \<le> x \<and> x \<le> 1 \<longrightarrow>
        (\<exists>n. normalizeScore (JNumber x) = Some n
           \<and> fmul (Finite x) (Finite 100) = Finite (roundDouble (x * 100))
           \<and> of_int n - 1 / 2 \<le> roundDouble (x * 100)
           \<and> roundDouble (x * 100) < of_int n + 1 / 2
           \<and> of_int n - 1 / 2 - 1 / 2 ^ 46 \<le> x * 100
           \<and> x * 100 < of_int n + 1 / 2 + 1 / 2 ^ 46))
   \<and> normalizeScore (JNumber 1) = Some 100
   \<and> (1 < x \<and> x \<le> 100 \<longrightarrow>
        (\<exists>n. normalizeScore (JNumber x) = Some n \<and> of_int n - 1 / 2 \<le> x \<and> x < of_int n + 1 / 2))
   \<and> (x < 0 \<or> 100 < x \<longrightarrow> normalizeScore (JNumber x) = None)"
proof -
  have range: "\<forall>n. normalizeScore v = Some n \<longrightarrow> 0 \<le> n \<and> n \<le> 100"
  proof (cases v)
    case (JNumber s)
    show ?thesis
    proof (intro allI impI)
      fix n assume n: "normalizeScore v = Some n"
      consider (unit) "0 \<le> s" "s \<le> 1" | (percent) "1 < s" "s \<le> 100"
        using n JNumber by (auto split: if_splits)
      then show "0 \<le> n \<and> n \<le> 100"
      proof cases
        case unit
        with n JNumber unit_score [of s] show ?thesis by simp
      next
        case percent
        with n JNumber percent_score [of s] show ?thesis by simp
      qed
    qed
  qed simp_all
  have unit: "\<exists>n. normalizeScore (JNumber x) = Some n
      \<and> fmul (Finite x) (Finite 100) = Finite (roundDouble (x * 100))
      \<and> of_int n - 1 / 2 \<le> roundDouble (x * 100)
      \<and> roundDouble (x * 100) < of_int n + 1 / 2
      \<and> of_int n - 1 / 2 - 1 / 2 ^ 46 \<le> x * 100
      \<and> x * 100 < of_int n + 1 / 2 + 1 / 2 ^ 46"
    if "0 \<le> x \<and> x \<le> 1"
  proof -
    let ?y = "roundDouble (x * 100)"
    from that have x: "0 \<le> x" "x \<le> 1"
      by simp_all
    have "normalizeScore (JNumber x) = Some (Math_round ?y)"
      using x by simp
    moreover note fmul_unit_interval [OF x]
    moreover have near: "of_int (Math_round ?y) - 1 / 2 \<le> ?y" "?y < of_int (Math_round ?y) + 1 / 2"
      using Math_round_nearest [of ?y] by simp_all
    moreover from near product_near(1) [OF x]
    have "of_int (Math_round ?y) - 1 / 2 - 1 / 2 ^ 46 \<le> x * 100"
      and "x * 100 < of_int (Math_round ?y) + 1 / 2 + 1 / 2 ^ 46"
      by linarith+
    ultimately show ?thesis
      by blast
  qed
  have percent: "\<exists>n. normalizeScore (JNumber x) = Some n
      \<and> of_int n - 1 / 2 \<le> x \<and> x < of_int n + 1 / 2"
    if "1 < x \<and> x \<le> 100"
    using that Math_round_nearest [of x] by simp
  have one: "normalizeScore (JNumber 1) = Some 100"
    by code_simp
  have outside: "x < 0 \<or> 100 < x \<longrightarrow> normalizeScore (JNumber x) = None"
    by auto
  from range unit one percent outside show ?thesis
    by (intro conjI impI) simp_all
qed

theorem normalizeScore_rounded_witness:
  "(\<exists>n. normalizeScore (JNumber (roundDouble (999 / 1000))) = Some n
      \<and> of_int n - 1 / 2 \<le> roundDouble (roundDouble (999 / 1000) * 100)
      \<and> roundDouble (roundDouble (999 / 1000) * 100) < of_int n + 1 / 2)
   \<and> normalizeScore (JNumber (roundDouble (999 / 1000))) = Some 100
   \<and> normalizeScore (JNumber (roundDouble (155 / 1000))) = Some 16
   \<and> normalizeScore (JNumber (roundDouble (4 / 1000))) = Some 0
   \<and> (\<exists>n. normalizeScore (JNumber (115 / 2)) = Some n
      \<and> of_int n - 1 / 2 \<le> (115 / 2 :: rat) \<and> (115 / 2 :: rat) < of_int n + 1 / 2)
   \<and> normalizeScore (JNumber (115 / 2)) = Some 58
   \<and> normalizeScore (JNumber (roundDouble (574 / 10))) = Some 57
   \<and> normalizeScore (JNumber 101) = None
   \<and> normalizeScore (JNumber (- 1)) = None"
proof -
  have literal: "roundDouble (999 / 1000) = 8998192055486251 / 2 ^ 53"
    by code_simp
  have "(0::rat) \<le> 8998192055486251 / 2 ^ 53 \<and> (8998192055486251 / 2 ^ 53 :: rat) \<le> 1"
    by simp
  with normalizeScore_rounded [of "JNumber 1" "8998192055486251 / 2 ^ 53"]
  have "\<exists>n. normalizeScore (JNumber (8998192055486251 / 2 ^ 53)) = Some n
      \<and> of_int n - 1 / 2 \<le> roundDouble (8998192055486251 / 2 ^ 53 * 100)
      \<and> roundDouble (8998192055486251 / 2 ^ 53 * 100) < of_int n + 1 / 2"
    by blast
  then have first: "\<exists>n. normalizeScore (JNumber (roundDouble (999 / 1000))) = Some n
      \<and> of_int n - 1 / 2 \<le> roundDouble (roundDouble (999 / 1000) * 100)
      \<and> roundDouble (roundDouble (999 / 1000) * 100) < of_int n + 1 / 2"
    unfolding literal .
  have "(1::rat) < 115 / 2 \<and> (115 / 2 :: rat) \<le> 100"
    by simp
  with normalizeScore_rounded [of "JNumber 1" "115 / 2"]
  have second: "\<exists>n. normalizeScore (JNumber (115 / 2)) = Some n
      \<and> of_int n - 1 / 2 \<le> (115 / 2 :: rat) \<and> (115 / 2 :: rat) < of_int n + 1 / 2"
    by blast
  have runs: "normalizeScore (JNumber (roundDouble (999 / 1000))) = Some 100"
    "normalizeScore (JNumber (roundDouble (155 / 1000))) = Some 16"
    "normalizeScore (JNumber (roundDouble (4 / 1000))) = Some 0"
    "normalizeScore (JNumber (115 / 2)) = Some 58"
    "normalizeScore (JNumber (roundDouble (574 / 10))) = Some 57"
    "normalizeScore (JNumber 101) = None"
    "normalizeScore (JNumber (- 1)) = None"
    by code_simp+
  from first second runs show ?thesis
    by (intro conjI)
qed

text \<open>
  The claim as stated fails where the rounding of the product crosses a tie: for the
  double written \<^verbatim>\<open>0.155\<close>, which lies below 155/1000, the exact product with 100 lies
  below 15.5 and rounds to 15; the double product is 15.5 and the score returned is 16.
\<close>

theorem normalizeScore_product_rounds:
  "normalizeScore (JNumber (roundDouble (155 / 1000))) = Some 16
   \<and> roundDouble (155 / 1000) = 5584463537939415 / 2 ^ 55
   \<and> roundDouble (155 / 1000) * 100 < 31 / 2
   \<and> Math_round (roundDouble (155 / 1000) * 100) = 15
   \<and> roundDouble (roundDouble (155 / 1000) * 100) = 31 / 2"
  by code_simp

section \<open>The claims about the adapters\<close>

text \<open>
  C9, as amended. When the request succeeds, \<open>fetchTrafficDaily\<close> returns the upstream
  items that carry a date, each converted to a point and none else (no day is
  zero-filled, no item with a date is dropped), in ascending order of date. It does
  not deduplicate: the dates of the result are distinct when the dates of the upstream
  items are. An error of the request is passed on.
\<close>

theorem fetchTrafficDaily_sorted:
  "fetchTrafficDaily (Inl e) = Inl e
   \<and> (\<exists>points.
         fetchTrafficDaily (Inr data) = Inr points
         \<and> sorted (map date points)
         \<and> mset points
             = mset (filter (\<lambda>p. date p \<noteq> []) (map trafficPoint (upstreamGroups data)))
         \<and> (distinct (filter (\<lambda>d. d \<noteq> []) (map (date \<circ> trafficPoint) (upstreamGroups data)))
              \<longrightarrow> distinct (map date points)))"
proof -
  let ?kept = "filter (\<lambda>p. date p \<noteq> []) (map trafficPoint (upstreamGroups data))"
  have eq: "fetchTrafficDaily (Inr data) = Inr (sort_key date ?kept)"
    by (simp add: fetchTrafficDaily_def upstreamGroups_def
        split: option.splits list.splits)
  have dates: "map date ?kept
      = filter (\<lambda>d. d \<noteq> []) (map (date \<circ> trafficPoint) (upstreamGroups data))"
    by (simp add: filter_map comp_def)
  have "mset (map date (sort_key date ?kept)) = mset (map date ?kept)"
    by simp
  then have "distinct (map date (sort_key date ?kept)) \<longleftrightarrow> distinct (map date ?kept)"
    by (rule mset_eq_imp_distinct_iff)
  with eq dates show ?thesis
    by (simp add: fetchTrafficDaily_def)
qed

theorem fetchTrafficDaily_sorted_witness:
  "map_sum id (map date)
     (fetchTrafficDaily
        (Inr (Some [Some
           [\<lparr> dimensions_date = Some ''2026-01-03'', sum_requests = JsonNumber 7,
               sum_bytes = JsonNumber 70, uniq_uniques = JsonNumber 3 \<rparr>,
            \<lparr> dimensions_date = None, sum_requests = JsonNumber 9,
               sum_bytes = JsonNumber 90, uniq_uniques = JsonNumber 1 \<rparr>,
            \<lparr> dimensions_date = Some ''2026-01-01'', sum_requests = JsonString (Some 5),
               sum_bytes = JsonOther, uniq_uniques = JsonNumber 2 \<rparr>]])))
   = Inr [''2026-01-01'', ''2026-01-03'']"
proof -
  let ?data = "Some [Some
           [\<lparr> dimensions_date = Some ''2026-01-03'', sum_requests = JsonNumber 7,
               sum_bytes = JsonNumber 70, uniq_uniques = JsonNumber 3 \<rparr>,
            \<lparr> dimensions_date = None, sum_requests = JsonNumber 9,
               sum_bytes = JsonNumber 90, uniq_uniques = JsonNumber 1 \<rparr>,
            \<lparr> dimensions_date = Some ''2026-01-01'', sum_requests = JsonString (Some 5),
               sum_bytes = JsonOther, uniq_uniques = JsonNumber 2 \<rparr>]]"
  have r: "map_sum id (map date) (fetchTrafficDaily (Inr ?data))
      = Inr [''2026-01-01'', ''2026-01-03'']"
    by code_simp
  from fetchTrafficDaily_sorted [of "''none''" ?data] r show ?thesis
    by simp
qed

text \<open>
  The claim as stated fails on a response with two items of one date: both are
  returned.
\<close>

theorem fetchTrafficDaily_duplicates:
  "map_sum id (map date)
     (fetchTrafficDaily
        (Inr (Some [Some
           [\<lparr> dimensions_date = Some ''2026-01-01'', sum_requests = JsonNumber 7,
               sum_bytes = JsonNumber 70, uniq_uniques = JsonNumber 3 \<rparr>,
            \<lparr> dimensions_date = Some ''2026-01-01'', sum_requests = JsonNumber 5,
               sum_bytes = JsonNumber 50, uniq_uniques = JsonNumber 2 \<rparr>]])))
   = Inr [''2026-01-01'', ''2026-01-01'']"
  by code_simp

subsection \<open>Substrings and sets of URLs\<close>

lemma startsWith_append: "startsWith (p @ s) p"
  by (induction p) simp_all

lemma includesString_empty: "includesString s []"
  by (cases s) simp_all

lemma includesString_prefix: "includesString (sub @ s) sub"
proof (cases sub)
  case Nil
  then show ?thesis by (simp add: includesString_empty)
next
  case (Cons c cs)
  have "startsWith ((c # cs) @ s) (c # cs)" by (rule startsWith_append)
  then show ?thesis unfolding Cons by simp
qed

lemma includesString_append_left: "includesString s sub \<Longrightarrow> includesString (a @ s) sub"
  by (induction a) simp_all

text \<open>A string includes each of the pieces it is put together from.\<close>

lemma includesString_middle: "includesString (a @ sub @ s) sub"
  by (rule includesString_append_left) (rule includesString_prefix)

lemma arrayFromSet_fold:
  "distinct seen \<Longrightarrow>
     distinct (foldl (\<lambda>seen x. if x \<in> set seen then seen else seen @ [x]) seen xs)
     \<and> set (foldl (\<lambda>seen x. if x \<in> set seen then seen else seen @ [x]) seen xs)
         = set seen \<union> set xs"
  by (induction xs arbitrary: seen) auto

lemma arrayFromSet_distinct: "distinct (arrayFromSet xs)" and arrayFromSet_set: "set (arrayFromSet xs) = set xs"
  using arrayFromSet_fold [of "[]" xs] by (simp_all add: arrayFromSet_def)

lemma uniqueUrls_distinct: "distinct (uniqueUrls urls)"
  and uniqueUrls_set: "set (uniqueUrls urls) = {u \<in> set urls. u \<noteq> []}"
  by (auto simp add: uniqueUrls_def arrayFromSet_distinct arrayFromSet_set)

lemma pagespeed_fold:
  "foldl (\<lambda>bundle u.
            (case probeUrl net u of
               (result, pushed) \<Rightarrow>
                 \<lparr> results = results bundle @ [result],
                   bundle_warnings = bundle_warnings bundle @ pushed \<rparr>)) acc us
   = \<lparr> results = results acc @ map (fst \<circ> probeUrl net) us,
       bundle_warnings = bundle_warnings acc @ concat (map (snd \<circ> probeUrl net) us) \<rparr>"
  by (induction us arbitrary: acc) (simp_all add: case_prod_unfold)

text \<open>The bundle holds, URL by URL, what each pass pushed.\<close>

lemma fetchPageSpeedForUrls_passes:
  "results (fetchPageSpeedForUrls net urls) = map (fst \<circ> probeUrl net) (uniqueUrls urls)"
  "bundle_warnings (fetchPageSpeedForUrls net urls)
     = concat (map (snd \<circ> probeUrl net) (uniqueUrls urls))"
  by (simp_all add: fetchPageSpeedForUrls_def pagespeed_fold)

lemma probeUrl_url [simp]: "url (fst (probeUrl net u)) = u"
  by (simp add: probeUrl_def case_prod_unfold Let_def)

lemma probeUrl_cong:
  assumes "\<And>s. probe net' v s = probe net v s" and "desktopFirst net' v = desktopFirst net v"
  shows "probeUrl net' v = probeUrl net v"
  using assms by (simp add: probeUrl_def probeOrEmpty_def Let_def)

text \<open>
  C6. Let \<open>u\<close> be a non-empty URL of the list whose desktop probe throws \<open>e\<close> and whose
  mobile probe returns \<open>payload\<close>. Then \<open>u\<close> stands once among the URLs probed, and at its
  place the results hold one entry for \<open>u\<close>, with the normalized scores of \<open>payload\<close> as
  mobile scores and four nulls as desktop scores, and the warnings hold one entry
  pushed for \<open>u\<close>, which names \<open>u\<close> and \<^verbatim>\<open>desktop\<close>; before and after stand what the
  passes of the other URLs pushed. The results of the other URLs are those of any
  network that agrees with this one on the other URLs.
\<close>

theorem fetchPageSpeedForUrls_desktop_failure:
  assumes "u \<in> set urls" and "u \<noteq> []"
    and "probe net u Desktop = Inl e" and "probe net u Mobile = Inr payload"
  shows "\<exists>before after.
      uniqueUrls urls = before @ u # after \<and> u \<notin> set before \<and> u \<notin> set after
      \<and> results (fetchPageSpeedForUrls net urls)
          = map (fst \<circ> probeUrl net) before
            @ [\<lparr> url = u,
                 mobile = \<lparr> performance = normalizeScore (performance_score payload),
                            accessibility = normalizeScore (accessibility_score payload),
                            bestPractices = normalizeScore (best_practices_score payload),
                            seo = normalizeScore (seo_score payload) \<rparr>,
                 desktop = \<lparr> performance = None, accessibility = None,
                             bestPractices = None, seo = None \<rparr> \<rparr>]
            @ map (fst \<circ> probeUrl net) after
      \<and> bundle_warnings (fetchPageSpeedForUrls net urls)
          = concat (map (snd \<circ> probeUrl net) before)
            @ [''PageSpeed desktop failed for '' @ u @ '': '' @ e]
            @ concat (map (snd \<circ> probeUrl net) after)
      \<and> includesString (''PageSpeed desktop failed for '' @ u @ '': '' @ e) u
      \<and> includesString (''PageSpeed desktop failed for '' @ u @ '': '' @ e) ''desktop''
      \<and> (\<forall>net'.
            (\<forall>v s. v \<noteq> u \<longrightarrow> probe net' v s = probe net v s)
            \<and> (\<forall>v. v \<noteq> u \<longrightarrow> desktopFirst net' v = desktopFirst net v)
            \<longrightarrow> filter (\<lambda>r. url r \<noteq> u) (results (fetchPageSpeedForUrls net' urls))
                = filter (\<lambda>r. url r \<noteq> u) (results (fetchPageSpeedForUrls net urls)))"
proof -
  have "u \<in> set (uniqueUrls urls)"
    using assms(1,2) by (simp add: uniqueUrls_set)
  then obtain before after where split: "uniqueUrls urls = before @ u # after"
    by (auto dest: split_list)
  have notin: "u \<notin> set before" "u \<notin> set after"
    using uniqueUrls_distinct [of urls] unfolding split by simp_all
  have pass: "probeUrl net u
      = (\<lparr> url = u,
           mobile = \<lparr> performance = normalizeScore (performance_score payload),
                      accessibility = normalizeScore (accessibility_score payload),
                      bestPractices = normalizeScore (best_practices_score payload),
                      seo = normalizeScore (seo_score payload) \<rparr>,
           desktop = \<lparr> performance = None, accessibility = None,
                       bestPractices = None, seo = None \<rparr> \<rparr>,
         [''PageSpeed desktop failed for '' @ u @ '': '' @ e])"
    using assms(3,4)
    by (simp add: probeUrl_def probeOrEmpty_def runPageSpeed_def strategyName_def
        emptyScores_def)
  have names_url: "includesString (''PageSpeed desktop failed for '' @ u @ '': '' @ e) u"
    by (rule includesString_middle)
  have "includesString (''PageSpeed '' @ ''desktop'' @ ('' failed for '' @ u @ '': '' @ e))
      ''desktop''"
    by (rule includesString_middle)
  then have names_desktop:
    "includesString (''PageSpeed desktop failed for '' @ u @ '': '' @ e) ''desktop''"
    by simp
  have others: "\<forall>net'.
      (\<forall>v s. v \<noteq> u \<longrightarrow> probe net' v s = probe net v s)
      \<and> (\<forall>v. v \<noteq> u \<longrightarrow> desktopFirst net' v = desktopFirst net v)
      \<longrightarrow> filter (\<lambda>r. url r \<noteq> u) (results (fetchPageSpeedForUrls net' urls))
          = filter (\<lambda>r. url r \<noteq> u) (results (fetchPageSpeedForUrls net urls))"
  proof (intro allI impI, elim conjE)
    fix net' :: PageSpeedNetwork
    assume agree: "\<forall>v s. v \<noteq> u \<longrightarrow> probe net' v s = probe net v s"
      "\<forall>v. v \<noteq> u \<longrightarrow> desktopFirst net' v = desktopFirst net v"
    have move: "filter (\<lambda>r. url r \<noteq> u) (map (fst \<circ> probeUrl n) (uniqueUrls urls))
        = map (fst \<circ> probeUrl n) (filter (\<lambda>v. v \<noteq> u) (uniqueUrls urls))" for n
      by (simp add: filter_map comp_def)
    have same: "map (fst \<circ> probeUrl net') (filter (\<lambda>v. v \<noteq> u) (uniqueUrls urls))
        = map (fst \<circ> probeUrl net) (filter (\<lambda>v. v \<noteq> u) (uniqueUrls urls))"
    proof (rule map_cong [OF refl])
      fix v assume "v \<in> set (filter (\<lambda>v. v \<noteq> u) (uniqueUrls urls))"
      then have "v \<noteq> u" by simp
      with agree have "probeUrl net' v = probeUrl net v"
        by (intro probeUrl_cong) simp_all
      then show "(fst \<circ> probeUrl net') v = (fst \<circ> probeUrl net) v" by simp
    qed
    show "filter (\<lambda>r. url r \<noteq> u) (results (fetchPageSpeedForUrls net' urls))
        = filter (\<lambda>r. url r \<noteq> u) (results (fetchPageSpeedForUrls net urls))"
      unfolding fetchPageSpeedForUrls_passes move same ..
  qed
  have res: "results (fetchPageSpeedForUrls net urls)
      = map (fst \<circ> probeUrl net) before
        @ [\<lparr> url = u,
             mobile = \<lparr> performance = normalizeScore (performance_score payload),
                        accessibility = normalizeScore (accessibility_score payload),
                        bestPractices = normalizeScore (best_practices_score payload),
                        seo = normalizeScore (seo_score payload) \<rparr>,
             desktop = \<lparr> performance = None, accessibility = None,
                         bestPractices = None, seo = None \<rparr> \<rparr>]
        @ map (fst \<circ> probeUrl net) after"
    and warn: "bundle_warnings (fetchPageSpeedForUrls net urls)
      = concat (map (snd \<circ> probeUrl net) before)
        @ [''PageSpeed desktop failed for '' @ u @ '': '' @ e]
        @ concat (map (snd \<circ> probeUrl net) after)"
    by (simp_all add: fetchPageSpeedForUrls_passes split pass)
  show ?thesis
    by (rule exI [of _ before], rule exI [of _ after])
      (intro conjI split notin res warn names_url names_desktop others)
qed

theorem fetchPageSpeedForUrls_desktop_failure_witness:
  "fetchPageSpeedForUrls
     \<lparr> probe = (\<lambda>u s. case s of
                  Mobile \<Rightarrow> Inr \<lparr> performance_score = JNumber (93 / 100),
                                  accessibility_score = JNumber 1,
                                  best_practices_score = JNotNumber,
                                  seo_score = JNumber 87 \<rparr>
                | Desktop \<Rightarrow> if u = ''https://a.example/'' then Inl ''Error: timeout''
                             else Inr \<lparr> performance_score = JNumber (1 / 2),
                                        accessibility_score = JNaN,
                                        best_practices_score = JNumber 101,
                                        seo_score = JNumber 0 \<rparr>),
       desktopFirst = (\<lambda>u. False) \<rparr>
     [''https://b.example/'', ''https://a.example/'', ''https://b.example/'']
   = \<lparr> results =
         [\<lparr> url = ''https://b.example/'',
            mobile = \<lparr> performance = Some 93, accessibility = Some 100,
                       bestPractices = None, seo = Some 87 \<rparr>,
            desktop = \<lparr> performance = Some 50, accessibility = None,
                        bestPractices = None, seo = Some 0 \<rparr> \<rparr>,
          \<lparr> url = ''https://a.example/'',
            mobile = \<lparr> performance = Some 93, accessibility = Some 100,
                       bestPractices = None, seo = Some 87 \<rparr>,
            desktop = \<lparr> performance = None, accessibility = None,
                        bestPractices = None, seo = None \<rparr> \<rparr>],
       bundle_warnings = [''PageSpeed desktop failed for https://a.example/: Error: timeout''] \<rparr>
   \<and> includesString ''PageSpeed desktop failed for https://a.example/: Error: timeout''
       ''desktop''"
proof -
  let ?net = "\<lparr> probe = (\<lambda>u s. case s of
                  Mobile \<Rightarrow> Inr \<lparr> performance_score = JNumber (93 / 100),
                                  accessibility_score = JNumber 1,
                                  best_practices_score = JNotNumber,
                                  seo_score = JNumber 87 \<rparr>
                | Desktop \<Rightarrow> if u = ''https://a.example/'' then Inl ''Error: timeout''
                             else Inr \<lparr> performance_score = JNumber (1 / 2),
                                        accessibility_score = JNaN,
                                        best_practices_score = JNumber 101,
                                        seo_score = JNumber 0 \<rparr>),
       desktopFirst = (\<lambda>u. False) \<rparr>"
  let ?urls = "[''https://b.example/'', ''https://a.example/'', ''https://b.example/'']"
  have run: "fetchPageSpeedForUrls ?net ?urls
   = \<lparr> results =
         [\<lparr> url = ''https://b.example/'',
            mobile = \<lparr> performance = Some 93, accessibility = Some 100,
                       bestPractices = None, seo = Some 87 \<rparr>,
            desktop = \<lparr> performance = Some 50, accessibility = None,
                        bestPractices = None, seo = Some 0 \<rparr> \<rparr>,
          \<lparr> url = ''https://a.example/'',
            mobile = \<lparr> performance = Some 93, accessibility = Some 100,
                       bestPractices = None, seo = Some 87 \<rparr>,
            desktop = \<lparr> performance = None, accessibility = None,
                        bestPractices = None, seo = None \<rparr> \<rparr>],
       bundle_warnings = [''PageSpeed desktop failed for https://a.example/: Error: timeout''] \<rparr>"
    by code_simp
  have h: "''https://a.example/'' \<in> set ?urls" "''https://a.example/'' \<noteq> []"
    "probe ?net ''https://a.example/'' Desktop = Inl ''Error: timeout''"
    "probe ?net ''https://a.example/'' Mobile
       = Inr \<lparr> performance_score = JNumber (93 / 100), accessibility_score = JNumber 1,
               best_practices_score = JNotNumber, seo_score = JNumber 87 \<rparr>"
    by simp_all
  from fetchPageSpeedForUrls_desktop_failure [OF h]
  have "includesString
      (''PageSpeed desktop failed for '' @ ''https://a.example/'' @ '': '' @ ''Error: timeout'')
      ''desktop''"
    by blast
  then have "includesString ''PageSpeed desktop failed for https://a.example/: Error: timeout''
      ''desktop''"
    by simp
  with run show ?thesis
    by (intro conjI)
qed

section \<open>The claims about the security rows\<close>

subsection \<open>The map of categories\<close>







subsection \<open>First appearance\<close>





subsection \<open>The stable sort\<close>



subsection \<open>The rows\<close>









section \<open>The claims about the snapshot\<close>

subsection \<open>Two runs of the assembly\<close>

lemma buildWordPressSnapshot_draws:
  "\<forall>k<4. r1 k = r2 k \<Longrightarrow> buildWordPressSnapshot key r1 = buildWordPressSnapshot key r2"
  by (simp add: buildWordPressSnapshot_def)

lemma assembleSnapshot_fields:
  "assembleSnapshot f period tz agg t1 r1
     = (assembleSnapshot f period tz agg t2 r2)
         \<lparr> generatedAt := t1, wordpress := buildWordPressSnapshot (monthKey period) r1 \<rparr>"
  by (simp add: assembleSnapshot_def split: prod.splits)

text \<open>
  C1, as amended. Two runs of the assembly on the same period and the same aggregation
  result, with the month label formatted alike, give snapshots that are the same
  except for \<open>generatedAt\<close> and the section \<open>wordpress\<close>, which is drawn from
  \<^verbatim>\<open>Math.random()\<close>; where the first four draws of the two runs are the same, the
  snapshots are the same except for \<open>generatedAt\<close>.
\<close>

theorem assembleSnapshot_deterministic:
  "assembleSnapshot f period tz agg t1 r1
     = (assembleSnapshot f period tz agg t2 r2)
         \<lparr> generatedAt := t1, wordpress := buildWordPressSnapshot (monthKey period) r1 \<rparr>
   \<and> ((\<forall>k<4. r1 k = r2 k)
        \<longrightarrow> assembleSnapshot f period tz agg t1 r1
              = (assembleSnapshot f period tz agg t2 r2) \<lparr> generatedAt := t1 \<rparr>)"
proof (intro conjI impI)
  show both: "assembleSnapshot f period tz agg t1 r1
     = (assembleSnapshot f period tz agg t2 r2)
         \<lparr> generatedAt := t1, wordpress := buildWordPressSnapshot (monthKey period) r1 \<rparr>"
    by (rule assembleSnapshot_fields)
  assume "\<forall>k<4. r1 k = r2 k"
  then have "buildWordPressSnapshot (monthKey period) r1
      = wordpress (assembleSnapshot f period tz agg t2 r2)"
    using buildWordPressSnapshot_draws [of r1 r2 "monthKey period"]
    by (simp add: assembleSnapshot_def split: prod.splits)
  with both show "assembleSnapshot f period tz agg t1 r1
      = (assembleSnapshot f period tz agg t2 r2) \<lparr> generatedAt := t1 \<rparr>"
    by simp
qed

theorem assembleSnapshot_deterministic_witness:
  "assembleSnapshot (\<lambda>key tz. ''February 2026'') (periodOf 20485) ''UTC''
     \<lparr> currentDaily = [\<lparr> date = ''2026-02-01'', requests = 10, uniques = 4, bytes = 2048 \<rparr>],
       previousDaily = [\<lparr> date = ''2026-01-31'', requests = 8, uniques = 4, bytes = 1024 \<rparr>],
       fetchedTopPaths = [\<lparr> path = ''/'', path_requests = 7 \<rparr>],
       securityGroups = [\<lparr> source = ''waf'', action = ''block'', count = 3 \<rparr>],
       pageSpeedResults = [], collectedWarnings = [''Top paths unavailable: none''] \<rparr>
     ''2026-03-01T02:00:00.000Z'' (\<lambda>k. 1 / 2)
   = (assembleSnapshot (\<lambda>key tz. ''February 2026'') (periodOf 20485) ''UTC''
        \<lparr> currentDaily = [\<lparr> date = ''2026-02-01'', requests = 10, uniques = 4, bytes = 2048 \<rparr>],
          previousDaily = [\<lparr> date = ''2026-01-31'', requests = 8, uniques = 4, bytes = 1024 \<rparr>],
          fetchedTopPaths = [\<lparr> path = ''/'', path_requests = 7 \<rparr>],
          securityGroups = [\<lparr> source = ''waf'', action = ''block'', count = 3 \<rparr>],
          pageSpeedResults = [], collectedWarnings = [''Top paths unavailable: none''] \<rparr>
        ''2026-03-02T09:30:00.000Z'' (\<lambda>k. if k < 4 then 1 / 2 else 0))
       \<lparr> generatedAt := ''2026-03-01T02:00:00.000Z'' \<rparr>"
proof -
  let ?agg = "\<lparr> currentDaily = [\<lparr> date = ''2026-02-01'', requests = 10, uniques = 4, bytes = 2048 \<rparr>],
       previousDaily = [\<lparr> date = ''2026-01-31'', requests = 8, uniques = 4, bytes = 1024 \<rparr>],
       fetchedTopPaths = [\<lparr> path = ''/'', path_requests = 7 \<rparr>],
       securityGroups = [\<lparr> source = ''waf'', action = ''block'', count = 3 \<rparr>],
       pageSpeedResults = [], collectedWarnings = [''Top paths unavailable: none''] \<rparr>"
  have draws: "\<forall>k<4. (1 / 2 :: number) = (if k < 4 then 1 / 2 else 0)"
    by simp
  from assembleSnapshot_deterministic
    [of "\<lambda>key tz. ''February 2026''" "periodOf 20485" "''UTC''" ?agg
       "''2026-03-01T02:00:00.000Z''" "\<lambda>k. 1 / 2"
       "''2026-03-02T09:30:00.000Z''" "\<lambda>k. if k < 4 then 1 / 2 else 0"] draws
  show ?thesis
    by blast
qed

text \<open>
  The claim as stated fails: with everything else the same, also the time stamp, a run
  whose draws are all 0 reports 18 plugins and a run whose draws are all 1/2 reports
  27.
\<close>

theorem assembleSnapshot_wordpress_differs:
  "totalPlugins (wordpress
     (assembleSnapshot (\<lambda>key tz. ''February 2026'') (periodOf 20485) ''UTC''
        \<lparr> currentDaily = [], previousDaily = [], fetchedTopPaths = [], securityGroups = [],
          pageSpeedResults = [], collectedWarnings = [] \<rparr>
        ''2026-03-01T02:00:00.000Z'' (\<lambda>k. 0))) = 18
   \<and> totalPlugins (wordpress
     (assembleSnapshot (\<lambda>key tz. ''February 2026'') (periodOf 20485) ''UTC''
        \<lparr> currentDaily = [], previousDaily = [], fetchedTopPaths = [], securityGroups = [],
          pageSpeedResults = [], collectedWarnings = [] \<rparr>
        ''2026-03-01T02:00:00.000Z'' (\<lambda>k. 1 / 2))) = 27
   \<and> assembleSnapshot (\<lambda>key tz. ''February 2026'') (periodOf 20485) ''UTC''
        \<lparr> currentDaily = [], previousDaily = [], fetchedTopPaths = [], securityGroups = [],
          pageSpeedResults = [], collectedWarnings = [] \<rparr>
        ''2026-03-01T02:00:00.000Z'' (\<lambda>k. 0)
     \<noteq> assembleSnapshot (\<lambda>key tz. ''February 2026'') (periodOf 20485) ''UTC''
        \<lparr> currentDaily = [], previousDaily = [], fetchedTopPaths = [], securityGroups = [],
          pageSpeedResults = [], collectedWarnings = [] \<rparr>
        ''2026-03-01T02:00:00.000Z'' (\<lambda>k. 1 / 2)"
proof -
  let ?run = "assembleSnapshot (\<lambda>key tz. ''February 2026'') (periodOf 20485) ''UTC''
        \<lparr> currentDaily = [], previousDaily = [], fetchedTopPaths = [], securityGroups = [],
          pageSpeedResults = [], collectedWarnings = [] \<rparr>
        ''2026-03-01T02:00:00.000Z''"
  have low: "totalPlugins (wordpress (?run (\<lambda>k. 0))) = 18"
    by (simp add: assembleSnapshot_def sumTraffic_def buildWordPressSnapshot_def randomInt_def)
  have high: "totalPlugins (wordpress (?run (\<lambda>k. 1 / 2))) = 27"
    by (simp add: assembleSnapshot_def sumTraffic_def buildWordPressSnapshot_def randomInt_def)
  from low high have "?run (\<lambda>k. 0) \<noteq> ?run (\<lambda>k. 1 / 2)"
    by auto
  with low high show ?thesis
    by (intro conjI)
qed

subsection \<open>A run whose security queries fail\<close>

lemma fetchSecurityGroups_failed: "fetchSecurityGroups (Inl e1) (Inl e2) = Inr []"
  by (simp add: fetchSecurityGroups_def)

lemma fetchSecurityGroups_returns: "\<exists>groups. fetchSecurityGroups p f = Inr groups"
  by (simp add: fetchSecurityGroups_def split: sum.splits)

lemma safeFetchSecurity_silent: "snd (safeFetchSecurity p f ws) = ws"
  by (simp add: safeFetchSecurity_def split: sum.splits)

lemma buildSecuritySnapshot_none:
  "buildSecuritySnapshot []
     = \<lparr> totalFirewallActions = 0, botRateLimitActions = 0, topCategories = [] \<rparr>"
  by (simp add: buildSecuritySnapshot_def)

lemma assembleSnapshot_security:
  "assembleSnapshot f period tz (agg \<lparr> securityGroups := groups \<rparr>) t r
     = (assembleSnapshot f period tz agg t r) \<lparr> security := buildSecuritySnapshot groups \<rparr>"
  by (simp add: assembleSnapshot_def split: prod.splits)

lemma generateSnapshot_security:
  fixes w :: World
  shows "generateSnapshot w mo
     = map_sum id
         (\<lambda>s. s \<lparr> security := buildSecuritySnapshot
                  (fst (safeFetchSecurity (security_outcome w) (security_fallback_outcome w) [])) \<rparr>)
         (generateSnapshot (w \<lparr> security_outcome := p, security_fallback_outcome := f \<rparr>) mo)"
proof -
  have sec: "\<exists>g. \<forall>ws. safeFetchSecurity a b ws = (g, ws)" for a b
    by (cases "fetchSecurityGroups a b") (simp_all add: safeFetchSecurity_def)
  obtain g1 where g1: "\<And>ws. safeFetchSecurity (security_outcome w)
      (security_fallback_outcome w) ws = (g1, ws)"
    using sec [of "security_outcome w" "security_fallback_outcome w"] by blast
  obtain g2 where g2: "\<And>ws. safeFetchSecurity p f ws = (g2, ws)"
    using sec [of p f] by blast
  have agg: "assembleSnapshot l period tz
        \<lparr> currentDaily = c, previousDaily = d, fetchedTopPaths = t,
          securityGroups = g1, pageSpeedResults = r, collectedWarnings = x \<rparr> n rnd
      = (assembleSnapshot l period tz
        \<lparr> currentDaily = c, previousDaily = d, fetchedTopPaths = t,
          securityGroups = g2, pageSpeedResults = r, collectedWarnings = x \<rparr> n rnd)
          \<lparr> security := buildSecuritySnapshot g1 \<rparr>" for l period tz c d t r x n rnd
    by (simp add: assembleSnapshot_def split: prod.splits)
  show ?thesis
    by (simp add: generateSnapshot_def g1 g2 agg Let_def split: sum.splits prod.splits)
qed

lemma generateSnapshot_warnings:
  assumes "generateSnapshot w mo = Inr s"
  shows "warnings s
     = normalizeWarnings
         (snd (safeFetchTopPaths (topPaths_outcome w) [])
          @ bundle_warnings
              (fetchPageSpeedForUrls (pagespeed_network w) (pagespeedUrls SITE_CONFIG)))"
proof -
  obtain g where g: "\<And>ws. safeFetchSecurity (security_outcome w)
      (security_fallback_outcome w) ws = (g, ws)"
    by (cases "fetchSecurityGroups (security_outcome w) (security_fallback_outcome w)")
      (simp_all add: safeFetchSecurity_def)
  from assms show ?thesis
    by (auto simp add: generateSnapshot_def g assembleSnapshot_def Let_def
        split: sum.splits prod.splits)
qed

lemma generateSnapshot_failed:
  assumes "security_outcome w = Inl e1" and "security_fallback_outcome w = Inl e2"
    and "generateSnapshot w mo = Inr s"
  shows "security s
     = \<lparr> totalFirewallActions = 0, botRateLimitActions = 0, topCategories = [] \<rparr>"
proof -
  have "safeFetchSecurity (Inl e1) (Inl e2) ws = ([], ws)" for ws
    by (simp add: safeFetchSecurity_def fetchSecurityGroups_failed)
  with assms show ?thesis
    by (auto simp add: generateSnapshot_def assembleSnapshot_def Let_def
        buildSecuritySnapshot_none split: sum.splits prod.splits)
qed

text \<open>
  C2, as amended. Where both security queries throw, the run ends as a run with any
  other outcome of the security queries ends: in the same error, of the month override
  or of a traffic query, or in a snapshot. The snapshot has 0 firewall actions, 0 bot
  and rate limit actions and no category; its warnings are those of the top paths and
  of PageSpeed, with no entry for the security queries; and it is the snapshot of the
  other run in every section but \<open>security\<close>. The earlier copy of \<^verbatim>\<open>safeFetchSecurity\<close>
  pushes no warning either, since \<^verbatim>\<open>fetchSecurityGroups\<close> returns the empty list there.
\<close>

theorem generateSnapshot_security_failure:
  fixes w :: World
  assumes "security_outcome w = Inl e1" and "security_fallback_outcome w = Inl e2"
  shows "((\<exists>error. generateSnapshot w mo = Inl error
            \<and> generateSnapshot (w \<lparr> security_outcome := p, security_fallback_outcome := f \<rparr>) mo
                = Inl error)
          \<or> (\<exists>s s'. generateSnapshot w mo = Inr s
            \<and> generateSnapshot (w \<lparr> security_outcome := p, security_fallback_outcome := f \<rparr>) mo
                = Inr s'
            \<and> security s
                = \<lparr> totalFirewallActions = 0, botRateLimitActions = 0, topCategories = [] \<rparr>
            \<and> warnings s
                = normalizeWarnings
                    (snd (safeFetchTopPaths (topPaths_outcome w) [])
                     @ bundle_warnings
                         (fetchPageSpeedForUrls (pagespeed_network w)
                            (pagespeedUrls SITE_CONFIG)))
            \<and> s' = s \<lparr> security := security s' \<rparr>))
       \<and> safeFetchSecurity_earlier (security_outcome w) (security_fallback_outcome w) ws
           = ([], ws)"
proof (intro conjI)
  let ?w' = "w \<lparr> security_outcome := p, security_fallback_outcome := f \<rparr>"
  have restored: "?w' \<lparr> security_outcome := security_outcome w,
      security_fallback_outcome := security_fallback_outcome w \<rparr> = w"
    by simp
  have other: "generateSnapshot ?w' mo
      = map_sum id (\<lambda>s. s \<lparr> security := buildSecuritySnapshot
            (fst (safeFetchSecurity p f [])) \<rparr>) (generateSnapshot w mo)"
    using generateSnapshot_security
      [where w = ?w' and mo = mo and p = "security_outcome w"
         and f = "security_fallback_outcome w"]
    unfolding restored by simp
  show "(\<exists>error. generateSnapshot w mo = Inl error \<and> generateSnapshot ?w' mo = Inl error)
      \<or> (\<exists>s s'. generateSnapshot w mo = Inr s \<and> generateSnapshot ?w' mo = Inr s'
            \<and> security s
                = \<lparr> totalFirewallActions = 0, botRateLimitActions = 0, topCategories = [] \<rparr>
            \<and> warnings s
                = normalizeWarnings
                    (snd (safeFetchTopPaths (topPaths_outcome w) [])
                     @ bundle_warnings
                         (fetchPageSpeedForUrls (pagespeed_network w)
                            (pagespeedUrls SITE_CONFIG)))
            \<and> s' = s \<lparr> security := security s' \<rparr>)"
  proof (cases "generateSnapshot w mo")
    case (Inl error)
    with other show ?thesis by simp
  next
    case (Inr s)
    let ?s' = "s \<lparr> security := buildSecuritySnapshot (fst (safeFetchSecurity p f [])) \<rparr>"
    from other Inr have "generateSnapshot ?w' mo = Inr ?s'"
      by simp
    moreover note Inr generateSnapshot_failed [OF assms Inr] generateSnapshot_warnings [OF Inr]
    moreover have "?s' = s \<lparr> security := security ?s' \<rparr>"
      by simp
    ultimately show ?thesis
      by blast
  qed
  show "safeFetchSecurity_earlier (security_outcome w) (security_fallback_outcome w) ws
      = ([], ws)"
    by (simp add: assms safeFetchSecurity_earlier_def fetchSecurityGroups_failed)
qed

theorem generateSnapshot_security_failure_witness:
  "\<exists>s. generateSnapshot
         \<lparr> clock_now = 20513, clock_nowIso = ''2026-03-01T02:00:00.000Z'',
           REPORT_TIMEZONE = None, math_random = (\<lambda>k. 0),
           intl_monthLabel = (\<lambda>key tz. ''February 2026''),
           traffic_outcome = (\<lambda>start endExclusive. Inr (Some [Some
             [\<lparr> dimensions_date = Some start, sum_requests = JsonNumber 10,
                sum_bytes = JsonNumber 2048, uniq_uniques = JsonNumber 4 \<rparr>]])),
           topPaths_outcome = Inl ''Error: Cloudflare GraphQL request failed (502)'',
           security_outcome = Inl ''Error: Cloudflare GraphQL request failed (500)'',
           security_fallback_outcome = Inl ''Error: Cloudflare GraphQL request failed (500)'',
           pagespeed_network =
             \<lparr> probe = (\<lambda>u s. Inr \<lparr> performance_score = JNumber (9 / 10),
                  accessibility_score = JNumber 1, best_practices_score = JNumber (1 / 2),
                  seo_score = JNotNumber \<rparr>),
               desktopFirst = (\<lambda>u. False) \<rparr> \<rparr> None = Inr s
      \<and> security s
          = \<lparr> totalFirewallActions = 0, botRateLimitActions = 0, topCategories = [] \<rparr>
      \<and> warnings s
          = [''Top paths unavailable: Error: Cloudflare GraphQL request failed (502)'']"
proof -
  let ?w = "\<lparr> clock_now = 20513, clock_nowIso = ''2026-03-01T02:00:00.000Z'',
           REPORT_TIMEZONE = None, math_random = (\<lambda>k. 0),
           intl_monthLabel = (\<lambda>key tz. ''February 2026''),
           traffic_outcome = (\<lambda>start endExclusive. Inr (Some [Some
             [\<lparr> dimensions_date = Some start, sum_requests = JsonNumber 10,
                sum_bytes = JsonNumber 2048, uniq_uniques = JsonNumber 4 \<rparr>]])),
           topPaths_outcome = Inl ''Error: Cloudflare GraphQL request failed (502)'',
           security_outcome = Inl ''Error: Cloudflare GraphQL request failed (500)'',
           security_fallback_outcome = Inl ''Error: Cloudflare GraphQL request failed (500)'',
           pagespeed_network =
             \<lparr> probe = (\<lambda>u s. Inr \<lparr> performance_score = JNumber (9 / 10),
                  accessibility_score = JNumber 1, best_practices_score = JNumber (1 / 2),
                  seo_score = JNotNumber \<rparr>),
               desktopFirst = (\<lambda>u. False) \<rparr> \<rparr>"
  have primary: "security_outcome ?w = Inl ''Error: Cloudflare GraphQL request failed (500)''"
    and fallback:
      "security_fallback_outcome ?w = Inl ''Error: Cloudflare GraphQL request failed (500)''"
    by simp_all
  have returns: "\<not> isl (generateSnapshot ?w None)"
    by code_simp
  then have noError: "generateSnapshot ?w None \<noteq> Inl error" for error
    by auto
  have pushed: "normalizeWarnings
      (snd (safeFetchTopPaths (topPaths_outcome ?w) [])
       @ bundle_warnings
           (fetchPageSpeedForUrls (pagespeed_network ?w) (pagespeedUrls SITE_CONFIG)))
      = [''Top paths unavailable: Error: Cloudflare GraphQL request failed (502)'']"
    by code_simp
  from generateSnapshot_security_failure
    [where w = ?w and mo = None and p = "Inr None" and f = "Inr None" and ws = "[]",
      OF primary fallback] noError
  obtain s where "generateSnapshot ?w None = Inr s"
    and "security s
      = \<lparr> totalFirewallActions = 0, botRateLimitActions = 0, topCategories = [] \<rparr>"
    and "warnings s = normalizeWarnings
      (snd (safeFetchTopPaths (topPaths_outcome ?w) [])
       @ bundle_warnings
           (fetchPageSpeedForUrls (pagespeed_network ?w) (pagespeedUrls SITE_CONFIG)))"
    by blast
  then show ?thesis
    unfolding pushed by blast
qed

text \<open>
  The claim as stated fails: in a run whose two security queries throw and whose other
  requests succeed, the snapshot has no warning at all.
\<close>

theorem generateSnapshot_no_security_warning:
  "map_sum id warnings
     (generateSnapshot
        \<lparr> clock_now = 20513, clock_nowIso = ''2026-03-01T02:00:00.000Z'',
          REPORT_TIMEZONE = None, math_random = (\<lambda>k. 0),
          intl_monthLabel = (\<lambda>key tz. ''February 2026''),
          traffic_outcome = (\<lambda>start endExclusive. Inr (Some [Some
            [\<lparr> dimensions_date = Some start, sum_requests = JsonNumber 10,
               sum_bytes = JsonNumber 2048, uniq_uniques = JsonNumber 4 \<rparr>]])),
          topPaths_outcome = Inr (Some [Some []]),
          security_outcome = Inl ''Error: Cloudflare GraphQL request failed (500)'',
          security_fallback_outcome = Inl ''Error: Cloudflare GraphQL request failed (500)'',
          pagespeed_network =
            \<lparr> probe = (\<lambda>u s. Inr \<lparr> performance_score = JNumber (9 / 10),
                 accessibility_score = JNumber 1, best_practices_score = JNumber (1 / 2),
                 seo_score = JNotNumber \<rparr>),
              desktopFirst = (\<lambda>u. False) \<rparr> \<rparr> None)
   = Inr []"
  by code_simp


end
